theory Spec2Isabelle
  imports Complex_Main
begin

section \<open>Data model (src/types/game.ts)\<close>

text \<open>
  JavaScript numbers are modelled as follows: coordinates, sizes, velocities and times are
  \<^typ>\<open>real\<close> (the arithmetic of the engine read over the real numbers, without rounding,
  NaN or infinities); the counters \<open>score\<close>, \<open>lives\<close> and \<open>level\<close> are \<^typ>\<open>int\<close>, since the
  engine only ever initialises them with integers and changes them by \<open>++\<close>, \<open>--\<close> and by
  adding a block's integer point value. The canvas element reports its size as unsigned
  integers.

  The interfaces \<open>Ball\<close>, \<open>Paddle\<close> and \<open>Block\<close> share fields; the shared fields are declared
  once in a parent record, so that \<open>isColliding\<close> can take any record with a position, a
  width and a height, as its structural parameter type in the source says.
\<close>

record position =
  x :: real
  y :: real

record velocity =
  vx :: real
  vy :: real

record drawable =
  position :: position
  color :: string

record ball = drawable +
  velocity :: velocity
  radius :: real

record rect = drawable +
  width :: real
  height :: real

record paddle = rect +
  speed :: real

record block = rect +
  destroyed :: bool
  points :: int

record GameState =
  isRunning :: bool
  isPaused :: bool
  score :: int
  lives :: int
  level :: int
  ball :: ball
  paddle :: paddle
  blocks :: "block list"

record Controls =
  leftPressed :: bool
  rightPressed :: bool
  touchX :: "real option"

record GameConfig =
  canvasWidth :: real
  canvasHeight :: real
  ballSpeed :: real
  paddleSpeed :: real
  maxLives :: int

text \<open>The part of the canvas element the engine reads: its pixel width and height.\<close>

record canvas =
  canvas_width :: nat
  canvas_height :: nat

text \<open>
  The engine object. The drawing context, the animation-frame handle, the listener list and
  \<open>touchStartY\<close> are left out: no simulation step reads them.
\<close>

record GameEngine =
  canvas :: canvas
  gameState :: GameState
  controls :: Controls
  config :: GameConfig
  lastTime :: real

section \<open>Configuration and block layout generation\<close>

text \<open>
  Each private method of the class is a function of the members of \<open>this\<close> that it reads
  (the configuration, the control state, the game state) and returns the game state it
  leaves behind. The public operations and the event handlers work on the whole engine.
\<close>

text \<open>The configuration that \<open>updateConfig\<close> derives from the canvas.\<close>

definition configOf :: "canvas \<Rightarrow> GameConfig" where
  "configOf cv =
     \<lparr>canvasWidth = real (canvas_width cv), canvasHeight = real (canvas_height cv),
      ballSpeed = 6, paddleSpeed = 10, maxLives = 3\<rparr>"

definition updateConfig :: "GameEngine \<Rightarrow> GameEngine" where
  "updateConfig e = e\<lparr>config := configOf (canvas e)\<rparr>"

definition colors :: "string list" where
  "colors = [''#ff6b6b'', ''#feca57'', ''#48cae4'', ''#06ffa5'',
             ''#ff9ff3'', ''#f38ba8'', ''#a6e3a1'', ''#fab387'']"

text \<open>The object pushed by the loop body of \<open>generateBlocks\<close> for row \<open>r\<close>, column \<open>c\<close>.\<close>

definition newBlock :: "int \<Rightarrow> int \<Rightarrow> int \<Rightarrow> block" where
  "newBlock rows r c =
     \<lparr>position = \<lparr>x = 35 + real_of_int c * (80 + 5), y = 60 + real_of_int r * (25 + 5)\<rparr>,
      color = colors ! (nat r mod length colors),
      width = 80, height = 25,
      destroyed = False, points = (rows - r) * 10\<rparr>"

text \<open>The inner loop \<open>for (let c = 0; c < cols; c++)\<close>, started at any \<open>c\<close>.\<close>

function colLoop :: "int \<Rightarrow> int \<Rightarrow> int \<Rightarrow> int \<Rightarrow> block list \<Rightarrow> block list" where
  "colLoop rows cols r c bs =
     (if c < cols then colLoop rows cols r (c + 1) (bs @ [newBlock rows r c]) else bs)"
  by pat_completeness auto
termination
  by (relation "measure (\<lambda>(rows, cols, r, c, bs). nat (cols - c))") auto

declare colLoop.simps [simp del]

text \<open>The outer loop \<open>for (let r = 0; r < rows; r++)\<close>, started at any \<open>r\<close>.\<close>

function rowLoop :: "int \<Rightarrow> int \<Rightarrow> int \<Rightarrow> block list \<Rightarrow> block list" where
  "rowLoop rows cols r bs =
     (if r < rows then rowLoop rows cols (r + 1) (colLoop rows cols r 0 bs) else bs)"
  by pat_completeness auto
termination
  by (relation "measure (\<lambda>(rows, cols, r, bs). nat (rows - r))") auto

declare rowLoop.simps [simp del]

text \<open>The grid the two loops build, as a list of rows (used to state what they compute).\<close>

definition gridRows :: "int \<Rightarrow> int \<Rightarrow> int \<Rightarrow> block list list" where
  "gridRows rows cols r = map (\<lambda>r'. map (newBlock rows r') [0..cols - 1]) [r..rows - 1]"

definition blockRows :: "int \<Rightarrow> int" where
  "blockRows lvl = min (3 + lvl div 2) 8"

definition blockCols :: "GameConfig \<Rightarrow> int" where
  "blockCols cfg = \<lfloor>(canvasWidth cfg - 2 * 35) / (80 + 5)\<rfloor>"

definition generateBlocks :: "GameConfig \<Rightarrow> int \<Rightarrow> block list" where
  "generateBlocks cfg lvl = rowLoop (blockRows lvl) (blockCols cfg) 0 []"

section \<open>Initial state\<close>

definition initializeGame :: "GameConfig \<Rightarrow> GameState" where
  "initializeGame cfg =
     (let ballRadius = 8;
          paddleWidth = 100;
          paddleHeight = 15;
          paddleX = (canvasWidth cfg - paddleWidth) / 2;
          paddleY = canvasHeight cfg - paddleHeight - 20
      in \<lparr>isRunning = False, isPaused = False, score = 0, lives = maxLives cfg, level = 1,
          ball = \<lparr>position = \<lparr>x = canvasWidth cfg / 2, y = paddleY - ballRadius - 5\<rparr>,
                  color = ''#ff6b6b'',
                  velocity = \<lparr>vx = 3, vy = - 3\<rparr>, radius = ballRadius\<rparr>,
          paddle = \<lparr>position = \<lparr>x = paddleX, y = paddleY\<rparr>, color = ''#4ecdc4'',
                    width = paddleWidth, height = paddleHeight, speed = paddleSpeed cfg\<rparr>,
          blocks = generateBlocks cfg 1\<rparr>)"

text \<open>The constructor: configuration from the canvas, no key pressed, no pointer.\<close>

definition newGameEngine :: "canvas \<Rightarrow> GameEngine" where
  "newGameEngine cv =
     \<lparr>canvas = cv,
      gameState = initializeGame (configOf cv),
      controls = \<lparr>leftPressed = False, rightPressed = False, touchX = None\<rparr>,
      config = configOf cv,
      lastTime = 0\<rparr>"

section \<open>The per-frame update\<close>

definition updatePaddle :: "GameConfig \<Rightarrow> Controls \<Rightarrow> GameState \<Rightarrow> GameState" where
  "updatePaddle cfg ctl gs =
     (let p = paddle gs;
          px = (case touchX ctl of
                  Some t \<Rightarrow> t - width p / 2
                | None \<Rightarrow>
                    (let px1 = (if leftPressed ctl then x (position p) - speed p
                                else x (position p))
                     in if rightPressed ctl then px1 + speed p else px1))
      in gs\<lparr>paddle := p\<lparr>position := (position p)
                \<lparr>x := max 0 (min (canvasWidth cfg - width p) px)\<rparr>\<rparr>\<rparr>)"

definition gameOver :: "GameState \<Rightarrow> GameState" where
  "gameOver gs = gs\<lparr>isRunning := False\<rparr>"

definition resetBall :: "GameState \<Rightarrow> GameState" where
  "resetBall gs =
     (let paddleX = x (position (paddle gs));
          paddleY = y (position (paddle gs))
      in gs\<lparr>ball := (ball gs)
             \<lparr>position := \<lparr>x = paddleX + width (paddle gs) / 2,
                           y = paddleY - radius (ball gs) - 5\<rparr>,
              velocity := \<lparr>vx = 3, vy = - 3\<rparr>\<rparr>\<rparr>)"

definition loseLife :: "GameState \<Rightarrow> GameState" where
  "loseLife gs =
     (let gs1 = gs\<lparr>lives := lives gs - 1\<rparr>
      in if lives gs1 > 0 then resetBall gs1 else gameOver gs1)"

definition updateBall :: "GameConfig \<Rightarrow> GameState \<Rightarrow> GameState" where
  "updateBall cfg gs =
     (let b = ball gs;
          r = radius b;
          px1 = x (position b) + vx (velocity b);
          py1 = y (position b) + vy (velocity b);
          hitSide = (px1 \<le> r \<or> px1 \<ge> canvasWidth cfg - r);
          vx1 = (if hitSide then - vx (velocity b) else vx (velocity b));
          px2 = (if hitSide then max r (min (canvasWidth cfg - r) px1) else px1);
          hitTop = (py1 \<le> r);
          vy1 = (if hitTop then - vy (velocity b) else vy (velocity b));
          py2 = (if hitTop then r else py1);
          gs1 = gs\<lparr>ball := b\<lparr>position := \<lparr>x = px2, y = py2\<rparr>,
                              velocity := \<lparr>vx = vx1, vy = vy1\<rparr>\<rparr>\<rparr>
      in if py2 \<ge> canvasHeight cfg + r then loseLife gs1 else gs1)"

definition isColliding :: "ball \<Rightarrow> 'a rect_scheme \<Rightarrow> bool" where
  "isColliding b rc =
     (let distX = \<bar>x (position b) - x (position rc) - width rc / 2\<bar>;
          distY = \<bar>y (position b) - y (position rc) - height rc / 2\<bar>
      in if distX > width rc / 2 + radius b then False
         else if distY > height rc / 2 + radius b then False
         else if distX \<le> width rc / 2 then True
         else if distY \<le> height rc / 2 then True
         else (let dx = distX - width rc / 2;
                   dy = distY - height rc / 2
               in dx * dx + dy * dy \<le> radius b * radius b))"

text \<open>
  \<open>checkCollisions\<close> has two consecutive parts: the paddle collision and the loop over
  the blocks. They are two functions here, composed in \<open>checkCollisions\<close>.
\<close>

definition paddleCollision :: "GameConfig \<Rightarrow> GameState \<Rightarrow> GameState" where
  "paddleCollision cfg gs =
     (let b = ball gs;
          p = paddle gs
      in if isColliding b p \<and> vy (velocity b) > 0 then
           (let vy1 = - \<bar>vy (velocity b)\<bar>;
                paddleCenter = x (position p) + width p / 2;
                hitPos = max (- 1) (min 1 ((x (position b) - paddleCenter) / (width p / 2)));
                vx1 = hitPos * 5;
                speed = sqrt (vx1 * vx1 + vy1 * vy1);
                targetSpeed = ballSpeed cfg
            in gs\<lparr>ball := b\<lparr>velocity := \<lparr>vx = (vx1 / speed) * targetSpeed,
                                            vy = (vy1 / speed) * targetSpeed\<rparr>,
                              position := (position b)\<lparr>y := y (position p) - radius b - 2\<rparr>\<rparr>\<rparr>)
         else gs)"

text \<open>The body of the block loop when block \<open>i\<close> is live and overlaps the ball.\<close>

definition hitBlock :: "nat \<Rightarrow> GameState \<Rightarrow> GameState" where
  "hitBlock i gs =
     (let b = ball gs;
          blk = blocks gs ! i;
          ballPrevX = x (position b) - vx (velocity b);
          ballPrevY = y (position b) - vy (velocity b);
          blockLeft = x (position blk);
          blockRight = x (position blk) + width blk;
          blockTop = y (position blk);
          blockBottom = y (position blk) + height blk;
          fromLeft = (ballPrevX < blockLeft);
          fromRight = (ballPrevX > blockRight);
          fromTop = (ballPrevY < blockTop);
          fromBottom = (ballPrevY > blockBottom);
          b1 = (if fromLeft \<or> fromRight then
                  b\<lparr>velocity := (velocity b)\<lparr>vx := - vx (velocity b)\<rparr>,
                    position := (position b)
                      \<lparr>x := (if fromLeft then blockLeft - radius b else blockRight + radius b)\<rparr>\<rparr>
                else if fromTop \<or> fromBottom then
                  b\<lparr>velocity := (velocity b)\<lparr>vy := - vy (velocity b)\<rparr>,
                    position := (position b)
                      \<lparr>y := (if fromTop then blockTop - radius b else blockBottom + radius b)\<rparr>\<rparr>
                else
                  b\<lparr>velocity := \<lparr>vx = - vx (velocity b), vy = - vy (velocity b)\<rparr>\<rparr>)
      in gs\<lparr>blocks := (blocks gs)[i := blk\<lparr>destroyed := True\<rparr>],
            score := score gs + points blk,
            ball := b1\<rparr>)"

text \<open>
  The loop \<open>for (let i = 0; i < blocks.length; i++)\<close>, started at any \<open>i\<close>; the \<open>break\<close>
  after a hit is the branch without a recursive call.
\<close>

function blockLoop :: "nat \<Rightarrow> GameState \<Rightarrow> GameState" where
  "blockLoop i gs =
     (if i < length (blocks gs) then
        (if \<not> destroyed (blocks gs ! i) \<and> isColliding (ball gs) (blocks gs ! i)
         then hitBlock i gs
         else blockLoop (i + 1) gs)
      else gs)"
  by pat_completeness auto
termination
  by (relation "measure (\<lambda>(i, gs). length (blocks gs) - i)") auto

declare blockLoop.simps [simp del]

definition checkCollisions :: "GameConfig \<Rightarrow> GameState \<Rightarrow> GameState" where
  "checkCollisions cfg gs = blockLoop 0 (paddleCollision cfg gs)"

definition checkGameOver :: "GameState \<Rightarrow> GameState" where
  "checkGameOver gs = (if lives gs \<le> 0 then gameOver gs else gs)"

definition nextLevel :: "GameConfig \<Rightarrow> GameState \<Rightarrow> GameState" where
  "nextLevel cfg gs =
     (let gs1 = gs\<lparr>level := level gs + 1\<rparr>;
          gs2 = gs1\<lparr>blocks := generateBlocks cfg (level gs1)\<rparr>;
          gs3 = resetBall gs2;
          speedIncrease = 0.2;
          currentSpeed = sqrt ((vx (velocity (ball gs3)))\<^sup>2 + (vy (velocity (ball gs3)))\<^sup>2);
          newSpeed = currentSpeed + speedIncrease;
          normalizedVel = \<lparr>vx = (vx (velocity (ball gs3)) / currentSpeed) * newSpeed,
                           vy = (vy (velocity (ball gs3)) / currentSpeed) * newSpeed\<rparr>
      in gs3\<lparr>ball := (ball gs3)\<lparr>velocity := normalizedVel\<rparr>\<rparr>)"

definition checkLevelComplete :: "GameConfig \<Rightarrow> GameState \<Rightarrow> GameState" where
  "checkLevelComplete cfg gs =
     (let remainingBlocks = filter (\<lambda>blk. \<not> destroyed blk) (blocks gs)
      in if length remainingBlocks = 0 then nextLevel cfg gs else gs)"

text \<open>\<open>update(deltaTime)\<close>; the argument is not read by the body.\<close>

definition update :: "GameConfig \<Rightarrow> Controls \<Rightarrow> real \<Rightarrow> GameState \<Rightarrow> GameState" where
  "update cfg ctl deltaTime gs =
     (if \<not> isRunning gs \<or> isPaused gs then gs
      else checkLevelComplete cfg
             (checkGameOver
               (checkCollisions cfg
                 (updateBall cfg
                   (updatePaddle cfg ctl gs)))))"

section \<open>Public operations\<close>

text \<open>
  \<open>gameLoop(currentTime)\<close> runs one update; \<open>render\<close> only draws, and the frame it requests
  through \<open>requestAnimationFrame\<close> is a later \<open>Frame\<close> event of the engine.
\<close>

definition gameLoop :: "real \<Rightarrow> GameEngine \<Rightarrow> GameEngine" where
  "gameLoop currentTime e =
     (let deltaTime = currentTime - lastTime e;
          e1 = e\<lparr>lastTime := currentTime\<rparr>
      in e1\<lparr>gameState := update (config e1) (controls e1) deltaTime (gameState e1)\<rparr>)"

text \<open>\<open>start()\<close>; \<open>now\<close> is the value \<open>performance.now()\<close> returns.\<close>

definition start :: "real \<Rightarrow> GameEngine \<Rightarrow> GameEngine" where
  "start now e =
     (if \<not> isRunning (gameState e) then
        (let e1 = e\<lparr>gameState := (gameState e)\<lparr>isRunning := True, isPaused := False\<rparr>\<rparr>;
             e2 = e1\<lparr>lastTime := now\<rparr>
         in gameLoop (lastTime e2) e2)
      else e)"

definition pause :: "GameEngine \<Rightarrow> GameEngine" where
  "pause e = e\<lparr>gameState := (gameState e)\<lparr>isPaused := True\<rparr>\<rparr>"

definition resume :: "GameEngine \<Rightarrow> GameEngine" where
  "resume e = e\<lparr>gameState := (gameState e)\<lparr>isPaused := False\<rparr>\<rparr>"

definition reset :: "GameEngine \<Rightarrow> GameEngine" where
  "reset e = e\<lparr>gameState := initializeGame (config e)\<rparr>"

text \<open>
  \<open>updateCanvasSize()\<close>. The tests \<open>if (this.gameState.paddle)\<close> and
  \<open>if (this.gameState.ball)\<close> are on objects, which are always truthy; the test
  \<open>if (this.gameState.level)\<close> is on a number, truthy when it is not zero.
\<close>

definition updateCanvasSize :: "GameEngine \<Rightarrow> GameEngine" where
  "updateCanvasSize e =
     (let e1 = updateConfig e;
          cfg = config e1;
          gs = gameState e1;
          p = paddle gs;
          gs1 = gs\<lparr>paddle := p\<lparr>position := (position p)
                  \<lparr>x := min (x (position p)) (canvasWidth cfg - width p)\<rparr>\<rparr>\<rparr>;
          b = ball gs1;
          gs2 = gs1\<lparr>ball := b\<lparr>position := (position b)
                  \<lparr>x := max (radius b) (min (canvasWidth cfg - radius b) (x (position b)))\<rparr>\<rparr>\<rparr>;
          gs3 = (if level gs2 \<noteq> 0 then gs2\<lparr>blocks := generateBlocks cfg (level gs2)\<rparr>
                 else gs2)
      in e1\<lparr>gameState := gs3\<rparr>)"

section \<open>Input events\<close>

text \<open>
  The handlers registered by \<open>setupEventListeners\<close>. A keyboard event carries its
  \<open>code\<close>; a pointer or touch event carries the canvas coordinate
  \<open>(clientX - rect.left) * scaleX\<close> that the handler computes from it; \<open>touchmove\<close> with
  an empty touch list carries none. Handlers that may call \<open>start()\<close> also take the clock
  value.
\<close>

definition keyDownHandler :: "string \<Rightarrow> real \<Rightarrow> GameEngine \<Rightarrow> GameEngine" where
  "keyDownHandler code now e =
     (let e1 = (if code = ''ArrowLeft'' \<or> code = ''KeyA''
                then e\<lparr>controls := (controls e)\<lparr>leftPressed := True\<rparr>\<rparr> else e);
          e2 = (if code = ''ArrowRight'' \<or> code = ''KeyD''
                then e1\<lparr>controls := (controls e1)\<lparr>rightPressed := True\<rparr>\<rparr> else e1)
      in if code = ''Space'' then
           (if \<not> isRunning (gameState e2) then start now e2
            else if isPaused (gameState e2) then resume e2
            else pause e2)
         else e2)"

definition keyUpHandler :: "string \<Rightarrow> GameEngine \<Rightarrow> GameEngine" where
  "keyUpHandler code e =
     (let e1 = (if code = ''ArrowLeft'' \<or> code = ''KeyA''
                then e\<lparr>controls := (controls e)\<lparr>leftPressed := False\<rparr>\<rparr> else e)
      in if code = ''ArrowRight'' \<or> code = ''KeyD''
         then e1\<lparr>controls := (controls e1)\<lparr>rightPressed := False\<rparr>\<rparr> else e1)"

definition touchStartHandler :: "real \<Rightarrow> real \<Rightarrow> GameEngine \<Rightarrow> GameEngine" where
  "touchStartHandler tx now e =
     (let e1 = e\<lparr>controls := (controls e)\<lparr>touchX := Some tx\<rparr>\<rparr>
      in if \<not> isRunning (gameState e1) then start now e1 else e1)"

definition touchMoveHandler :: "real option \<Rightarrow> GameEngine \<Rightarrow> GameEngine" where
  "touchMoveHandler touch e =
     (case touch of
        Some tx \<Rightarrow> e\<lparr>controls := (controls e)\<lparr>touchX := Some tx\<rparr>\<rparr>
      | None \<Rightarrow> e)"

definition touchEndHandler :: "GameEngine \<Rightarrow> GameEngine" where
  "touchEndHandler e = e\<lparr>controls := (controls e)\<lparr>touchX := None\<rparr>\<rparr>"

definition mouseMoveHandler :: "real \<Rightarrow> GameEngine \<Rightarrow> GameEngine" where
  "mouseMoveHandler tx e = e\<lparr>controls := (controls e)\<lparr>touchX := Some tx\<rparr>\<rparr>"

definition clickHandler :: "real \<Rightarrow> GameEngine \<Rightarrow> GameEngine" where
  "clickHandler now e = (if \<not> isRunning (gameState e) then start now e else e)"

text \<open>
  Everything that can happen to a constructed engine: an input event, an animation frame,
  a call of a public operation by the host, or the host resizing the canvas element
  (which it does before it calls \<open>updateCanvasSize\<close>).
\<close>

datatype event =
    KeyDown string real
  | KeyUp string
  | TouchStart real real
  | TouchMove "real option"
  | TouchEnd
  | MouseMove real
  | Click real
  | Frame real
  | Start real
  | Pause
  | Resume
  | Reset
  | SetCanvasSize nat nat
  | UpdateCanvasSize

fun handle :: "event \<Rightarrow> GameEngine \<Rightarrow> GameEngine" where
  "handle (KeyDown code now) e = keyDownHandler code now e"
| "handle (KeyUp code) e = keyUpHandler code e"
| "handle (TouchStart tx now) e = touchStartHandler tx now e"
| "handle (TouchMove touch) e = touchMoveHandler touch e"
| "handle TouchEnd e = touchEndHandler e"
| "handle (MouseMove tx) e = mouseMoveHandler tx e"
| "handle (Click now) e = clickHandler now e"
| "handle (Frame currentTime) e = gameLoop currentTime e"
| "handle (Start now) e = start now e"
| "handle Pause e = pause e"
| "handle Resume e = resume e"
| "handle Reset e = reset e"
| "handle (SetCanvasSize w h) e = e\<lparr>canvas := \<lparr>canvas_width = w, canvas_height = h\<rparr>\<rparr>"
| "handle UpdateCanvasSize e = updateCanvasSize e"

text \<open>The engine after a sequence of events, oldest first.\<close>

definition run :: "event list \<Rightarrow> GameEngine \<Rightarrow> GameEngine" where
  "run evs e = fold handle evs e"

text \<open>The states an engine can be in: those some sequence of events leads to.\<close>

inductive reachable :: "GameEngine \<Rightarrow> bool" where
  constructed: "reachable (newGameEngine cv)"
| handled: "reachable e \<Longrightarrow> reachable (handle ev e)"

section \<open>The snapshot and the object heap\<close>

text \<open>
  \<open>getGameState\<close> returns \<open>{ ...this.gameState }\<close>: a new object with the own properties of
  the game-state object. What a caller can do with the result depends on which objects are
  shared, so this operation is modelled over a heap of objects addressed by references.
  The game-state object holds its five scalar fields by value and its ball, paddle and
  block array by reference; the array holds references to the block objects. The position
  and velocity of a ball, paddle or block are kept inside their owner.
\<close>

type_synonym ref = nat

datatype obj =
    GameStateObj bool bool int int int ref ref ref
  | BallObj ball
  | PaddleObj paddle
  | BlockObj block
  | ArrayObj "ref list"

type_synonym heap = "obj list"

definition alloc :: "obj \<Rightarrow> heap \<Rightarrow> heap \<times> ref" where
  "alloc ob h = (h @ [ob], length h)"

definition deref :: "heap \<Rightarrow> ref \<Rightarrow> obj option" where
  "deref h r = (if r < length h then Some (h ! r) else None)"

definition readBall :: "heap \<Rightarrow> ref \<Rightarrow> ball option" where
  "readBall h r = (case deref h r of Some (BallObj b) \<Rightarrow> Some b | _ \<Rightarrow> None)"

definition readPaddle :: "heap \<Rightarrow> ref \<Rightarrow> paddle option" where
  "readPaddle h r = (case deref h r of Some (PaddleObj p) \<Rightarrow> Some p | _ \<Rightarrow> None)"

definition readBlock :: "heap \<Rightarrow> ref \<Rightarrow> block option" where
  "readBlock h r = (case deref h r of Some (BlockObj blk) \<Rightarrow> Some blk | _ \<Rightarrow> None)"

fun readBlocks :: "heap \<Rightarrow> ref list \<Rightarrow> block list option" where
  "readBlocks h [] = Some []"
| "readBlocks h (r # rs) =
     (case readBlock h r of
        None \<Rightarrow> None
      | Some blk \<Rightarrow> map_option ((#) blk) (readBlocks h rs))"

definition readArray :: "heap \<Rightarrow> ref \<Rightarrow> block list option" where
  "readArray h r = (case deref h r of Some (ArrayObj rs) \<Rightarrow> readBlocks h rs | _ \<Rightarrow> None)"

text \<open>The game state that is seen through a reference to a game-state object.\<close>

definition readGameState :: "heap \<Rightarrow> ref \<Rightarrow> GameState option" where
  "readGameState h r =
     (case deref h r of
        Some (GameStateObj rn pau sc li le br pr ar) \<Rightarrow>
          (case (readBall h br, readPaddle h pr, readArray h ar) of
             (Some b, Some p, Some bs) \<Rightarrow>
               Some \<lparr>isRunning = rn, isPaused = pau, score = sc, lives = li, level = le,
                     ball = b, paddle = p, blocks = bs\<rparr>
           | _ \<Rightarrow> None)
      | _ \<Rightarrow> None)"

text \<open>
  The references a game-state object holds in its \<open>ball\<close>, \<open>paddle\<close> and \<open>blocks\<close>
  fields.
\<close>

definition ballRef :: "heap \<Rightarrow> ref \<Rightarrow> ref option" where
  "ballRef h r =
     (case deref h r of
        Some (GameStateObj rn pau sc li le br pr ar) \<Rightarrow> Some br
      | _ \<Rightarrow> None)"

definition paddleRef :: "heap \<Rightarrow> ref \<Rightarrow> ref option" where
  "paddleRef h r =
     (case deref h r of
        Some (GameStateObj rn pau sc li le br pr ar) \<Rightarrow> Some pr
      | _ \<Rightarrow> None)"

definition blocksRef :: "heap \<Rightarrow> ref \<Rightarrow> ref option" where
  "blocksRef h r =
     (case deref h r of
        Some (GameStateObj rn pau sc li le br pr ar) \<Rightarrow> Some ar
      | _ \<Rightarrow> None)"

text \<open>Building the objects of a game state, as the object literal of \<open>initializeGame\<close> does.\<close>

fun allocBlocks :: "block list \<Rightarrow> heap \<Rightarrow> heap \<times> ref list" where
  "allocBlocks [] h = (h, [])"
| "allocBlocks (blk # bs) h =
     (let (h1, r) = alloc (BlockObj blk) h;
          (h2, rs) = allocBlocks bs h1
      in (h2, r # rs))"

definition allocGameState :: "GameState \<Rightarrow> heap \<Rightarrow> heap \<times> ref" where
  "allocGameState gs h =
     (let (h1, br) = alloc (BallObj (ball gs)) h;
          (h2, pr) = alloc (PaddleObj (paddle gs)) h1;
          (h3, rs) = allocBlocks (blocks gs) h2;
          (h4, ar) = alloc (ArrayObj rs) h3
      in alloc (GameStateObj (isRunning gs) (isPaused gs) (score gs) (lives gs) (level gs)
                  br pr ar) h4)"

text \<open>
  \<open>getGameState()\<close>, given the reference held in \<open>this.gameState\<close>: the spread copies every
  field of the object, references included, into a new object. The result is the new heap
  and the reference returned to the caller.
\<close>

definition getGameState :: "heap \<Rightarrow> ref \<Rightarrow> (heap \<times> ref) option" where
  "getGameState h r =
     (case deref h r of
        Some (GameStateObj rn pau sc li le br pr ar) \<Rightarrow>
          Some (alloc (GameStateObj rn pau sc li le br pr ar) h)
      | _ \<Rightarrow> None)"

text \<open>
  Writes a caller can perform on a snapshot \<open>s\<close>: assignments to the scalar fields of the
  returned object (\<open>s.score = v\<close> and so on), and writes that go through a reference stored
  in it (\<open>s.blocks[i].destroyed = v\<close>, \<open>s.blocks.length = 0\<close>, \<open>s.ball.radius = v\<close>).
\<close>

datatype mutation =
    SetIsRunning bool
  | SetIsPaused bool
  | SetScore int
  | SetLives int
  | SetLevel int
  | SetBlockDestroyed nat bool
  | TruncateBlocks
  | SetBallRadius real

fun ownField :: "mutation \<Rightarrow> bool" where
  "ownField (SetBlockDestroyed i v) = False"
| "ownField TruncateBlocks = False"
| "ownField (SetBallRadius v) = False"
| "ownField m = True"

definition mutateObj :: "mutation \<Rightarrow> obj \<Rightarrow> obj" where
  "mutateObj m ob =
     (case ob of
        GameStateObj rn pau sc li le br pr ar \<Rightarrow>
          (case m of
             SetIsRunning v \<Rightarrow> GameStateObj v pau sc li le br pr ar
           | SetIsPaused v \<Rightarrow> GameStateObj rn v sc li le br pr ar
           | SetScore v \<Rightarrow> GameStateObj rn pau v li le br pr ar
           | SetLives v \<Rightarrow> GameStateObj rn pau sc v le br pr ar
           | SetLevel v \<Rightarrow> GameStateObj rn pau sc li v br pr ar
           | _ \<Rightarrow> ob)
      | _ \<Rightarrow> ob)"

definition mutate :: "ref \<Rightarrow> mutation \<Rightarrow> heap \<Rightarrow> heap" where
  "mutate s m h =
     (case deref h s of
        Some (GameStateObj rn pau sc li le br pr ar) \<Rightarrow>
          (case m of
             SetBlockDestroyed i v \<Rightarrow>
               (case deref h ar of
                  Some (ArrayObj rs) \<Rightarrow>
                    (if i < length rs then
                       (case deref h (rs ! i) of
                          Some (BlockObj blk) \<Rightarrow> h[rs ! i := BlockObj (blk\<lparr>destroyed := v\<rparr>)]
                        | _ \<Rightarrow> h)
                     else h)
                | _ \<Rightarrow> h)
           | TruncateBlocks \<Rightarrow>
               (case deref h ar of Some (ArrayObj rs) \<Rightarrow> h[ar := ArrayObj []] | _ \<Rightarrow> h)
           | SetBallRadius v \<Rightarrow>
               (case deref h br of Some (BallObj b) \<Rightarrow> h[br := BallObj (b\<lparr>radius := v\<rparr>)] | _ \<Rightarrow> h)
           | _ \<Rightarrow> h[s := mutateObj m (h ! s)])
      | _ \<Rightarrow> h)"

section \<open>An invariant of the game state\<close>

text \<open>Facts about the game state that every operation of the engine preserves.\<close>

definition stateInv :: "GameState \<Rightarrow> bool" where
  "stateInv gs =
     (1 \<le> level gs \<and> width (paddle gs) = 100 \<and> radius (ball gs) = 8 \<and>
      list_all (\<lambda>blk. 0 < points blk) (blocks gs))"

section \<open>Concrete engines used as examples\<close>

text \<open>The canvas of the host page at full size, 800 by 600.\<close>

definition canvas800 :: canvas where
  "canvas800 = \<lparr>canvas_width = 800, canvas_height = 600\<rparr>"

text \<open>
  An engine whose game is over: the host shrinks the canvas of a fresh 800 by 600 game to
  400 by 300 and calls \<open>updateCanvasSize\<close>, which leaves the paddle and the ball at their
  old heights (565 and 552). On each of the first three frames the ball is therefore below
  the bottom edge, and a life is lost.
\<close>

definition lostEngine :: GameEngine where
  "lostEngine =
     run [SetCanvasSize 400 300, UpdateCanvasSize, Start 0, Frame 16, Frame 32]
       (newGameEngine canvas800)"

text \<open>An engine on a small canvas whose first frame destroys the first block.\<close>

definition hitEngine :: GameEngine where
  "hitEngine = run [Start 0] (newGameEngine \<lparr>canvas_width = 160, canvas_height = 120\<rparr>)"

text \<open>Key presses, a click and a frame, with no touch-end among them.\<close>

definition keysThenFrame :: "event list" where
  "keysThenFrame = [KeyDown ''ArrowLeft'' 5, Click 6, Frame 22, KeyUp ''ArrowLeft'', KeyDown ''KeyD'' 30]"

text \<open>
  A running level-1 game on the 800 by 600 canvas with the ball about to move to
  (117.5, 72), where it overlaps both the first and the second block of the top row.
\<close>

definition twoBlockState :: GameState where
  "twoBlockState =
     (initializeGame (configOf canvas800))
       \<lparr>isRunning := True,
        ball := (ball (initializeGame (configOf canvas800)))
                  \<lparr>position := \<lparr>x = 114.5, y = 75\<rparr>\<rparr>\<rparr>"

text \<open>No key held and no pointer.\<close>

definition noInput :: Controls where
  "noInput = \<lparr>leftPressed = False, rightPressed = False, touchX = None\<rparr>"

text \<open>The state of the small-canvas game three frames in, as the ball comes down on the paddle.\<close>

definition bounceEngine :: GameEngine where
  "bounceEngine =
     run [Start 0, Frame 16, Frame 32] (newGameEngine \<lparr>canvas_width = 160, canvas_height = 120\<rparr>)"

text \<open>
  A running level-1 game on the 800 by 600 canvas in which only the first block is left;
  the ball moves at speed 6 (velocity (3.6, -4.8)) and reaches that block from below on
  the next frame.
\<close>

definition lastBlockState :: GameState where
  "lastBlockState =
     (initializeGame (configOf canvas800))
       \<lparr>isRunning := True,
        ball := (ball (initializeGame (configOf canvas800)))
                  \<lparr>position := \<lparr>x = 71.4, y = 94.8\<rparr>, velocity := \<lparr>vx = 3.6, vy = - 4.8\<rparr>\<rparr>,
        blocks := (map (\<lambda>blk. blk\<lparr>destroyed := True\<rparr>) (generateBlocks (configOf canvas800) 1))
                    [0 := generateBlocks (configOf canvas800) 1 ! 0]\<rparr>"

text \<open>An engine on the 800 by 600 canvas holding that state.\<close>

definition lastBlockEngine :: GameEngine where
  "lastBlockEngine = (newGameEngine canvas800)\<lparr>gameState := lastBlockState\<rparr>"

text \<open>
  The heap of a freshly constructed engine on the 800 by 600 canvas, the reference the
  engine holds in \<open>this.gameState\<close>, and the heap and reference after one call of
  \<open>getGameState()\<close>.
\<close>

definition newHeap :: heap where
  "newHeap = fst (allocGameState (initializeGame (configOf canvas800)) [])"

definition newRef :: ref where
  "newRef = snd (allocGameState (initializeGame (configOf canvas800)) [])"

definition newSnapshot :: "heap \<times> ref" where
  "newSnapshot = the (getGameState newHeap newRef)"

section \<open>The block grid\<close>

lemma colLoop_eq: "colLoop rows cols r c bs = bs @ map (newBlock rows r) [c..cols - 1]"
proof (induction rows cols r c bs rule: colLoop.induct)
  case (1 rows cols r c bs)
  show ?case
  proof (cases "c < cols")
    case True
    then have "[c..cols - 1] = c # [c + 1..cols - 1]"
      by (simp add: upto_rec1)
    with True 1 show ?thesis by (subst colLoop.simps) simp
  next
    case False
    then show ?thesis by (subst colLoop.simps) simp
  qed
qed

lemma rowLoop_eq: "rowLoop rows cols r bs = bs @ concat (gridRows rows cols r)"
proof (induction rows cols r bs rule: rowLoop.induct)
  case (1 rows cols r bs)
  show ?case
  proof (cases "r < rows")
    case True
    then have "[r..rows - 1] = r # [r + 1..rows - 1]"
      by (simp add: upto_rec1)
    with True 1 show ?thesis by (subst rowLoop.simps) (simp add: colLoop_eq gridRows_def)
  next
    case False
    then show ?thesis by (subst rowLoop.simps) (simp add: gridRows_def)
  qed
qed

lemma generateBlocks_grid:
  "generateBlocks cfg lvl = concat (gridRows (blockRows lvl) (blockCols cfg) 0)"
  by (simp add: generateBlocks_def rowLoop_eq)

lemma length_concat_rows:
  "\<forall>xs \<in> set xss. length xs = n \<Longrightarrow> length (concat xss) = length xss * n"
  by (induction xss) auto

lemma nth_concat_rows:
  "\<forall>xs \<in> set xss. length xs = n \<Longrightarrow> i < length xss \<Longrightarrow> j < n \<Longrightarrow>
   concat xss ! (i * n + j) = xss ! i ! j"
proof (induction xss arbitrary: i)
  case Nil
  then show ?case by simp
next
  case (Cons xs xss)
  show ?case
  proof (cases i)
    case 0
    with Cons.prems show ?thesis by (simp add: nth_append)
  next
    case (Suc k)
    with Cons.prems have "concat xss ! (k * n + j) = xss ! k ! j"
      by (intro Cons.IH) auto
    moreover have "Suc k * n + j = length xs + (k * n + j)"
      using Cons.prems by simp
    ultimately show ?thesis using Suc by (simp add: nth_append del: mult_Suc)
  qed
qed

lemma gridRows_length: "length (gridRows rows cols 0) = nat rows"
  by (simp add: gridRows_def)

lemma gridRows_row_length: "\<forall>xs \<in> set (gridRows rows cols 0). length xs = nat cols"
  by (auto simp: gridRows_def)

lemma gridRows_nth:
  "0 \<le> r \<Longrightarrow> r < rows \<Longrightarrow> 0 \<le> c \<Longrightarrow> c < cols \<Longrightarrow>
     gridRows rows cols 0 ! nat r ! nat c = newBlock rows r c"
  by (simp add: gridRows_def)

lemma generateBlocks_length:
  "length (generateBlocks cfg lvl) = nat (blockRows lvl) * nat (blockCols cfg)"
  by (simp add: generateBlocks_grid length_concat_rows [OF gridRows_row_length] gridRows_length)

lemma generateBlocks_nth:
  assumes "0 \<le> r" "r < blockRows lvl" "0 \<le> c" "c < blockCols cfg"
  shows "generateBlocks cfg lvl ! nat (r * blockCols cfg + c) = newBlock (blockRows lvl) r c"
proof -
  have "nat (r * blockCols cfg + c) = nat r * nat (blockCols cfg) + nat c"
    using assms by (simp add: nat_add_distrib nat_mult_distrib)
  moreover have "concat (gridRows (blockRows lvl) (blockCols cfg) 0) ! (nat r * nat (blockCols cfg) + nat c)
      = gridRows (blockRows lvl) (blockCols cfg) 0 ! nat r ! nat c"
    using assms by (intro nth_concat_rows gridRows_row_length) (simp_all add: gridRows_length)
  ultimately show ?thesis
    using assms by (simp add: generateBlocks_grid gridRows_nth)
qed

lemma generateBlocks_member:
  assumes "blk \<in> set (generateBlocks cfg lvl)"
  shows "\<not> destroyed blk \<and> 0 < points blk \<and> width blk = 80 \<and> height blk = 25"
proof -
  from assms obtain r c where "blk = newBlock (blockRows lvl) r c" "0 \<le> r" "r < blockRows lvl"
    by (auto simp: generateBlocks_grid gridRows_def)
  then show ?thesis by (simp add: newBlock_def)
qed

text \<open>
  Claim C7. The layout is a function of the level and the surface width alone. It has
  \<open>min(3 + floor(level/2), 8)\<close> rows and \<open>floor((surfaceWidth - 70) / 85)\<close> columns, stored
  row by row; the block in row \<open>r\<close> and column \<open>c\<close> is 80 by 25, placed at
  \<open>(35 + 85c, 60 + 30r)\<close>, not destroyed and worth \<open>(rows - r) * 10\<close> points. For width 800 at
  level 1 these are 3 rows of 8 blocks, 24 in all, worth 30 points in the top row and 10 in
  the bottom row.
\<close>


theorem generateBlocks_layout:
  fixes cfg :: GameConfig and lvl :: int
  defines "rows \<equiv> min (3 + lvl div 2) 8"
    and "cols \<equiv> \<lfloor>(canvasWidth cfg - 70) / 85\<rfloor>"
  shows "length (generateBlocks cfg lvl) = nat rows * nat cols \<and>
    (\<forall>r c. 0 \<le> r \<and> r < rows \<and> 0 \<le> c \<and> c < cols \<longrightarrow>
       (let blk = generateBlocks cfg lvl ! nat (r * cols + c)
        in position blk = \<lparr>x = 35 + real_of_int c * 85, y = 60 + real_of_int r * 30\<rparr> \<and>
           width blk = 80 \<and> height blk = 25 \<and> \<not> destroyed blk \<and>
           points blk = (rows - r) * 10)) \<and>
    (canvasWidth cfg = 800 \<and> lvl = 1 \<longrightarrow>
       rows = 3 \<and> cols = 8 \<and> length (generateBlocks cfg lvl) = 24 \<and>
       map points (generateBlocks cfg lvl) = replicate 8 30 @ replicate 8 20 @ replicate 8 10)"
proof -
  have rows: "rows = blockRows lvl" and cols: "cols = blockCols cfg"
    by (simp_all add: rows_def cols_def blockRows_def blockCols_def)
  have len: "length (generateBlocks cfg lvl) = nat rows * nat cols"
    by (simp add: rows cols generateBlocks_length)
  have nth: "\<forall>r c. 0 \<le> r \<and> r < rows \<and> 0 \<le> c \<and> c < cols \<longrightarrow>
       (let blk = generateBlocks cfg lvl ! nat (r * cols + c)
        in position blk = \<lparr>x = 35 + real_of_int c * 85, y = 60 + real_of_int r * 30\<rparr> \<and>
           width blk = 80 \<and> height blk = 25 \<and> \<not> destroyed blk \<and>
           points blk = (rows - r) * 10)"
    by (simp add: rows cols generateBlocks_nth newBlock_def)
  have inst: "canvasWidth cfg = 800 \<and> lvl = 1 \<longrightarrow>
       rows = 3 \<and> cols = 8 \<and> length (generateBlocks cfg lvl) = 24 \<and>
       map points (generateBlocks cfg lvl) = replicate 8 30 @ replicate 8 20 @ replicate 8 10"
  proof
    assume a: "canvasWidth cfg = 800 \<and> lvl = 1"
    then have r3: "blockRows lvl = 3" and c8: "blockCols cfg = 8"
      by (simp_all add: blockRows_def blockCols_def)
    have "map points (generateBlocks cfg lvl) = replicate 8 30 @ replicate 8 20 @ replicate 8 10"
      by (simp add: generateBlocks_grid r3 c8 gridRows_def upto.simps newBlock_def
          numeral_eq_Suc)
    with r3 c8 len show "rows = 3 \<and> cols = 8 \<and> length (generateBlocks cfg lvl) = 24 \<and>
       map points (generateBlocks cfg lvl) = replicate 8 30 @ replicate 8 20 @ replicate 8 10"
      by (simp add: rows cols)
  qed
  from len nth inst show ?thesis by blast
qed

theorem generateBlocks_layout_witness:
  "points (generateBlocks (configOf canvas800) 1 ! 0) = 30 \<and>
   points (generateBlocks (configOf canvas800) 1 ! 23) = 10 \<and>
   length (generateBlocks (configOf canvas800) 1) = 24"
proof -
  have w: "canvasWidth (configOf canvas800) = 800"
    by (simp add: configOf_def canvas800_def)
  have r: "min (3 + (1::int) div 2) 8 = 3" by simp
  have c: "\<lfloor>(canvasWidth (configOf canvas800) - 70) / 85\<rfloor> = 8" by (simp add: w)
  note L = generateBlocks_layout [of "configOf canvas800" 1, unfolded r c]
  from L have len: "length (generateBlocks (configOf canvas800) 1) = 24" by simp
  from L have pts: "\<forall>r c. 0 \<le> r \<and> r < 3 \<and> 0 \<le> c \<and> c < 8 \<longrightarrow>
      points (generateBlocks (configOf canvas800) 1 ! nat (r * 8 + c)) = (3 - r) * 10"
    by (simp add: Let_def)
  from pts [rule_format, of 0 0] pts [rule_format, of 2 7] len show ?thesis by simp
qed

section \<open>The per-frame update while stopped or paused\<close>

text \<open>
  Claim C3. When the running flag is false or the paused flag is true, the per-frame update
  returns the game state it was given, whatever the time delta and the control state are.
\<close>


theorem update_noop:
  "\<not> isRunning gs \<or> isPaused gs \<Longrightarrow> update cfg ctl deltaTime gs = gs"
  by (simp add: update_def)

theorem update_noop_witness:
  "\<not> isRunning (initializeGame (configOf canvas800)) \<and>
   update (configOf canvas800) \<lparr>leftPressed = True, rightPressed = False, touchX = Some 10\<rparr>
      16 (initializeGame (configOf canvas800)) = initializeGame (configOf canvas800)"
proof -
  have h: "\<not> isRunning (initializeGame (configOf canvas800))"
    by (simp add: initializeGame_def Let_def)
  then have "\<not> isRunning (initializeGame (configOf canvas800)) \<or>
      isPaused (initializeGame (configOf canvas800))" ..
  from h update_noop [OF this] show ?thesis by simp
qed

section \<open>What each step of the update leaves alone\<close>

lemma updatePaddle_frame [simp]:
  "isRunning (updatePaddle cfg ctl gs) = isRunning gs"
  "isPaused (updatePaddle cfg ctl gs) = isPaused gs"
  "score (updatePaddle cfg ctl gs) = score gs"
  "lives (updatePaddle cfg ctl gs) = lives gs"
  "level (updatePaddle cfg ctl gs) = level gs"
  "ball (updatePaddle cfg ctl gs) = ball gs"
  "blocks (updatePaddle cfg ctl gs) = blocks gs"
  "width (paddle (updatePaddle cfg ctl gs)) = width (paddle gs)"
  by (simp_all add: updatePaddle_def Let_def)

lemma resetBall_frame [simp]:
  "isRunning (resetBall gs) = isRunning gs"
  "isPaused (resetBall gs) = isPaused gs"
  "score (resetBall gs) = score gs"
  "lives (resetBall gs) = lives gs"
  "level (resetBall gs) = level gs"
  "paddle (resetBall gs) = paddle gs"
  "blocks (resetBall gs) = blocks gs"
  "radius (ball (resetBall gs)) = radius (ball gs)"
  by (simp_all add: resetBall_def Let_def)

lemma loseLife_frame [simp]:
  "isPaused (loseLife gs) = isPaused gs"
  "score (loseLife gs) = score gs"
  "lives (loseLife gs) = lives gs - 1"
  "level (loseLife gs) = level gs"
  "paddle (loseLife gs) = paddle gs"
  "blocks (loseLife gs) = blocks gs"
  "radius (ball (loseLife gs)) = radius (ball gs)"
  "isRunning (loseLife gs) = (isRunning gs \<and> 1 < lives gs)"
  by (auto simp: loseLife_def gameOver_def Let_def)

lemma updateBall_frame [simp]:
  "isPaused (updateBall cfg gs) = isPaused gs"
  "score (updateBall cfg gs) = score gs"
  "level (updateBall cfg gs) = level gs"
  "paddle (updateBall cfg gs) = paddle gs"
  "blocks (updateBall cfg gs) = blocks gs"
  "radius (ball (updateBall cfg gs)) = radius (ball gs)"
  by (simp_all add: updateBall_def Let_def)

lemma updateBall_lives:
  "(lives (updateBall cfg gs) = lives gs \<and> isRunning (updateBall cfg gs) = isRunning gs) \<or>
   (lives (updateBall cfg gs) = lives gs - 1 \<and>
    isRunning (updateBall cfg gs) = (isRunning gs \<and> 1 < lives gs))"
  by (simp add: updateBall_def Let_def)

lemma paddleCollision_frame [simp]:
  "isRunning (paddleCollision cfg gs) = isRunning gs"
  "isPaused (paddleCollision cfg gs) = isPaused gs"
  "score (paddleCollision cfg gs) = score gs"
  "lives (paddleCollision cfg gs) = lives gs"
  "level (paddleCollision cfg gs) = level gs"
  "paddle (paddleCollision cfg gs) = paddle gs"
  "blocks (paddleCollision cfg gs) = blocks gs"
  "radius (ball (paddleCollision cfg gs)) = radius (ball gs)"
  by (simp_all add: paddleCollision_def Let_def)

lemma hitBlock_frame [simp]:
  "isRunning (hitBlock i gs) = isRunning gs"
  "isPaused (hitBlock i gs) = isPaused gs"
  "lives (hitBlock i gs) = lives gs"
  "level (hitBlock i gs) = level gs"
  "paddle (hitBlock i gs) = paddle gs"
  "radius (ball (hitBlock i gs)) = radius (ball gs)"
  "score (hitBlock i gs) = score gs + points (blocks gs ! i)"
  "blocks (hitBlock i gs) = (blocks gs)[i := (blocks gs ! i)\<lparr>destroyed := True\<rparr>]"
  by (simp_all add: hitBlock_def Let_def)

text \<open>The block loop either finds no live overlapping block from \<open>i\<close> on and changes
  nothing, or it handles the first such block and stops.\<close>

lemma blockLoop_cases:
  "(blockLoop i gs = gs \<and>
      (\<forall>k. i \<le> k \<and> k < length (blocks gs) \<longrightarrow>
           destroyed (blocks gs ! k) \<or> \<not> isColliding (ball gs) (blocks gs ! k))) \<or>
   (\<exists>j. i \<le> j \<and> j < length (blocks gs) \<and>
        \<not> destroyed (blocks gs ! j) \<and> isColliding (ball gs) (blocks gs ! j) \<and>
        (\<forall>k. i \<le> k \<and> k < j \<longrightarrow>
           destroyed (blocks gs ! k) \<or> \<not> isColliding (ball gs) (blocks gs ! k)) \<and>
        blockLoop i gs = hitBlock j gs)"
proof (induction i gs rule: blockLoop.induct)
  case (1 i gs)
  let ?live = "\<lambda>k. \<not> destroyed (blocks gs ! k) \<and> isColliding (ball gs) (blocks gs ! k)"
  show ?case
  proof (cases "i < length (blocks gs)")
    case False
    then have "blockLoop i gs = gs" by (subst blockLoop.simps) simp
    with False show ?thesis by auto
  next
    case inside: True
    show ?thesis
    proof (cases "?live i")
      case True
      with inside have "blockLoop i gs = hitBlock i gs"
        by (subst blockLoop.simps) simp
      with True inside show ?thesis by auto
    next
      case False
      with inside have eq: "blockLoop i gs = blockLoop (i + 1) gs"
        by (subst blockLoop.simps) auto
      have skip: "\<And>k. i \<le> k \<Longrightarrow> \<not> i + 1 \<le> k \<Longrightarrow> k = i" by simp
      from 1 [OF inside False] show ?thesis
      proof (elim disjE conjE exE)
        assume a: "blockLoop (i + 1) gs = gs"
          and b: "\<forall>k. i + 1 \<le> k \<and> k < length (blocks gs) \<longrightarrow>
            destroyed (blocks gs ! k) \<or> \<not> isColliding (ball gs) (blocks gs ! k)"
        have "\<forall>k. i \<le> k \<and> k < length (blocks gs) \<longrightarrow>
            destroyed (blocks gs ! k) \<or> \<not> isColliding (ball gs) (blocks gs ! k)"
        proof (intro allI impI)
          fix k assume "i \<le> k \<and> k < length (blocks gs)"
          then show "destroyed (blocks gs ! k) \<or> \<not> isColliding (ball gs) (blocks gs ! k)"
            using b False by (cases "k = i") auto
        qed
        with a eq show ?thesis by simp
      next
        fix j
        assume j: "i + 1 \<le> j" "j < length (blocks gs)" "\<not> destroyed (blocks gs ! j)"
          "isColliding (ball gs) (blocks gs ! j)"
          and b: "\<forall>k. i + 1 \<le> k \<and> k < j \<longrightarrow>
            destroyed (blocks gs ! k) \<or> \<not> isColliding (ball gs) (blocks gs ! k)"
          and c: "blockLoop (i + 1) gs = hitBlock j gs"
        have "\<forall>k. i \<le> k \<and> k < j \<longrightarrow>
            destroyed (blocks gs ! k) \<or> \<not> isColliding (ball gs) (blocks gs ! k)"
        proof (intro allI impI)
          fix k assume "i \<le> k \<and> k < j"
          then show "destroyed (blocks gs ! k) \<or> \<not> isColliding (ball gs) (blocks gs ! k)"
            using b False by (cases "k = i") auto
        qed
        with j c eq show ?thesis by (intro disjI2 exI [of _ j]) simp
      qed
    qed
  qed
qed

lemma blockLoop_frame [simp]:
  "isRunning (blockLoop i gs) = isRunning gs"
  "isPaused (blockLoop i gs) = isPaused gs"
  "lives (blockLoop i gs) = lives gs"
  "level (blockLoop i gs) = level gs"
  "paddle (blockLoop i gs) = paddle gs"
  "radius (ball (blockLoop i gs)) = radius (ball gs)"
  using blockLoop_cases [of i gs] by auto

lemma blockLoop_length [simp]: "length (blocks (blockLoop i gs)) = length (blocks gs)"
  using blockLoop_cases [of i gs] by auto

lemma checkCollisions_frame [simp]:
  "isRunning (checkCollisions cfg gs) = isRunning gs"
  "isPaused (checkCollisions cfg gs) = isPaused gs"
  "lives (checkCollisions cfg gs) = lives gs"
  "level (checkCollisions cfg gs) = level gs"
  "paddle (checkCollisions cfg gs) = paddle gs"
  "radius (ball (checkCollisions cfg gs)) = radius (ball gs)"
  by (simp_all add: checkCollisions_def)

lemma checkGameOver_frame [simp]:
  "isPaused (checkGameOver gs) = isPaused gs"
  "score (checkGameOver gs) = score gs"
  "lives (checkGameOver gs) = lives gs"
  "level (checkGameOver gs) = level gs"
  "ball (checkGameOver gs) = ball gs"
  "paddle (checkGameOver gs) = paddle gs"
  "blocks (checkGameOver gs) = blocks gs"
  "isRunning (checkGameOver gs) = (isRunning gs \<and> 0 < lives gs)"
  by (auto simp: checkGameOver_def gameOver_def)

lemma nextLevel_frame [simp]:
  "isRunning (nextLevel cfg gs) = isRunning gs"
  "isPaused (nextLevel cfg gs) = isPaused gs"
  "score (nextLevel cfg gs) = score gs"
  "lives (nextLevel cfg gs) = lives gs"
  "level (nextLevel cfg gs) = level gs + 1"
  "paddle (nextLevel cfg gs) = paddle gs"
  "blocks (nextLevel cfg gs) = generateBlocks cfg (level gs + 1)"
  "radius (ball (nextLevel cfg gs)) = radius (ball gs)"
  by (simp_all add: nextLevel_def Let_def)

lemma checkLevelComplete_frame [simp]:
  "isRunning (checkLevelComplete cfg gs) = isRunning gs"
  "isPaused (checkLevelComplete cfg gs) = isPaused gs"
  "score (checkLevelComplete cfg gs) = score gs"
  "lives (checkLevelComplete cfg gs) = lives gs"
  "paddle (checkLevelComplete cfg gs) = paddle gs"
  "radius (ball (checkLevelComplete cfg gs)) = radius (ball gs)"
  by (simp_all add: checkLevelComplete_def Let_def)

lemma update_isPaused [simp]: "isPaused (update cfg ctl deltaTime gs) = isPaused gs"
  by (simp add: update_def)

lemma update_score:
  "score (update cfg ctl deltaTime gs) =
     (if isRunning gs \<and> \<not> isPaused gs
      then score (checkCollisions cfg (updateBall cfg (updatePaddle cfg ctl gs)))
      else score gs)"
  by (simp add: update_def)

lemma update_running_iff_lives:
  assumes "isRunning gs" "\<not> isPaused gs"
  shows "isRunning (update cfg ctl deltaTime gs) = (0 < lives (update cfg ctl deltaTime gs))"
  using assms updateBall_lives [of cfg "updatePaddle cfg ctl gs"]
  by (auto simp: update_def)

section \<open>Invariants of the reachable states\<close>

lemma generateBlocks_points: "list_all (\<lambda>blk. 0 < points blk) (generateBlocks cfg lvl)"
  using generateBlocks_member [of _ cfg lvl] by (auto simp: list_all_iff)

lemma generateBlocks_live: "list_all (\<lambda>blk. \<not> destroyed blk) (generateBlocks cfg lvl)"
  using generateBlocks_member [of _ cfg lvl] by (auto simp: list_all_iff)

lemma list_all_update: "list_all P xs \<Longrightarrow> P a \<Longrightarrow> list_all P (xs[i := a])"
  by (induction xs arbitrary: i) (auto split: nat.splits)

lemma blockLoop_points:
  assumes "list_all (\<lambda>blk. 0 < points blk) (blocks gs)"
  shows "list_all (\<lambda>blk. 0 < points blk) (blocks (blockLoop i gs))"
  using blockLoop_cases [of i gs]
proof (elim disjE conjE exE)
  assume "blockLoop i gs = gs"
  with assms show ?thesis by simp
next
  fix j assume j: "j < length (blocks gs)" and eq: "blockLoop i gs = hitBlock j gs"
  from assms j have "0 < points (blocks gs ! j)" by (simp add: list_all_length)
  with assms eq show ?thesis by (simp add: list_all_update)
qed

lemma stateInv_initializeGame: "stateInv (initializeGame cfg)"
  by (simp add: stateInv_def initializeGame_def Let_def generateBlocks_points)

lemma stateInv_update:
  assumes "stateInv gs"
  shows "stateInv (update cfg ctl deltaTime gs)"
proof -
  let ?g3 = "checkCollisions cfg (updateBall cfg (updatePaddle cfg ctl gs))"
  from assms have "list_all (\<lambda>blk. 0 < points blk) (blocks ?g3)"
    by (simp add: checkCollisions_def stateInv_def blockLoop_points)
  with assms have "stateInv (checkGameOver ?g3)"
    by (simp add: stateInv_def)
  then have "stateInv (checkLevelComplete cfg (checkGameOver ?g3))"
    by (simp add: stateInv_def checkLevelComplete_def Let_def generateBlocks_points)
  with assms show ?thesis by (simp add: update_def)
qed

lemma gameState_gameLoop [simp]:
  "gameState (gameLoop t e) = update (config e) (controls e) (t - lastTime e) (gameState e)"
  "controls (gameLoop t e) = controls e"
  "config (gameLoop t e) = config e"
  "canvas (gameLoop t e) = canvas e"
  by (simp_all add: gameLoop_def Let_def)

lemma start_frame [simp]:
  "controls (start now e) = controls e"
  "config (start now e) = config e"
  "canvas (start now e) = canvas e"
  by (simp_all add: start_def Let_def)

lemma gameState_start:
  "gameState (start now e) =
     (if isRunning (gameState e) then gameState e
      else update (config e) (controls e) 0 ((gameState e)\<lparr>isRunning := True, isPaused := False\<rparr>))"
  by (simp add: start_def Let_def)

lemma stateInv_flags [simp]:
  "stateInv (gs\<lparr>isRunning := a\<rparr>) = stateInv gs"
  "stateInv (gs\<lparr>isPaused := b\<rparr>) = stateInv gs"
  by (simp_all add: stateInv_def)

lemma stateInv_start: "stateInv (gameState e) \<Longrightarrow> stateInv (gameState (start now e))"
  by (simp add: gameState_start stateInv_update)

lemma stateInv_updateCanvasSize:
  "stateInv (gameState e) \<Longrightarrow> stateInv (gameState (updateCanvasSize e))"
  by (simp add: updateCanvasSize_def updateConfig_def Let_def stateInv_def generateBlocks_points)

lemma stateInv_handle:
  assumes "stateInv (gameState e)"
  shows "stateInv (gameState (handle ev e))"
proof (cases ev)
  case (KeyDown code now)
  with assms show ?thesis
    by (simp add: keyDownHandler_def Let_def stateInv_start pause_def resume_def)
next
  case (TouchStart tx now)
  with assms show ?thesis by (simp add: touchStartHandler_def Let_def stateInv_start)
next
  case (Click now)
  with assms show ?thesis by (simp add: clickHandler_def stateInv_start)
next
  case (Start now)
  with assms show ?thesis by (simp add: stateInv_start)
next
  case (Frame t)
  with assms show ?thesis by (simp add: stateInv_update)
next
  case UpdateCanvasSize
  with assms show ?thesis by (simp add: stateInv_updateCanvasSize)
next
  case Reset
  then show ?thesis by (simp add: reset_def stateInv_initializeGame)
qed (use assms in \<open>simp_all add: keyUpHandler_def touchMoveHandler_def touchEndHandler_def
      mouseMoveHandler_def pause_def resume_def split: option.splits\<close>)

lemma reachable_stateInv: "reachable e \<Longrightarrow> stateInv (gameState e)"
  by (induction rule: reachable.induct)
     (simp_all add: newGameEngine_def stateInv_initializeGame stateInv_handle)

lemma reachable_run: "reachable e \<Longrightarrow> reachable (run evs e)"
  unfolding run_def by (induction evs arbitrary: e) (simp_all add: reachable.handled)

section \<open>Resizing\<close>

text \<open>
  Claim C9. In every state the engine can reach, after \<open>updateCanvasSize\<close> the block
  collection is the grid generated afresh for the current level and the new canvas width,
  so it is complete and no block of it is destroyed, whatever was destroyed before; the
  score, the lives, the level and the running and paused flags are what they were.
\<close>

theorem updateCanvasSize_restores_blocks:
  assumes "reachable e"
  shows "blocks (gameState (updateCanvasSize e)) =
           generateBlocks (configOf (canvas e)) (level (gameState e)) \<and>
         length (blocks (gameState (updateCanvasSize e))) =
           nat (min (3 + level (gameState e) div 2) 8) *
           nat \<lfloor>(real (canvas_width (canvas e)) - 70) / 85\<rfloor> \<and>
         list_all (\<lambda>blk. \<not> destroyed blk) (blocks (gameState (updateCanvasSize e))) \<and>
         score (gameState (updateCanvasSize e)) = score (gameState e) \<and>
         lives (gameState (updateCanvasSize e)) = lives (gameState e) \<and>
         level (gameState (updateCanvasSize e)) = level (gameState e) \<and>
         isRunning (gameState (updateCanvasSize e)) = isRunning (gameState e) \<and>
         isPaused (gameState (updateCanvasSize e)) = isPaused (gameState e)"
proof -
  from assms have "level (gameState e) \<noteq> 0"
    using reachable_stateInv [of e] by (simp add: stateInv_def)
  then have regenerated: "blocks (gameState (updateCanvasSize e)) =
      generateBlocks (configOf (canvas e)) (level (gameState e))"
    and rest: "score (gameState (updateCanvasSize e)) = score (gameState e)"
      "lives (gameState (updateCanvasSize e)) = lives (gameState e)"
      "level (gameState (updateCanvasSize e)) = level (gameState e)"
      "isRunning (gameState (updateCanvasSize e)) = isRunning (gameState e)"
      "isPaused (gameState (updateCanvasSize e)) = isPaused (gameState e)"
    by (simp_all add: updateCanvasSize_def updateConfig_def Let_def)
  have len: "length (generateBlocks (configOf (canvas e)) (level (gameState e))) =
           nat (min (3 + level (gameState e) div 2) 8) *
           nat \<lfloor>(real (canvas_width (canvas e)) - 70) / 85\<rfloor>"
    by (simp add: generateBlocks_length blockRows_def blockCols_def configOf_def)
  from regenerated rest len show ?thesis
    by (simp add: generateBlocks_live)
qed

text \<open>The definitions to unfold when a run of the engine is evaluated on concrete input.\<close>

lemmas step_defs = run_def newGameEngine_def configOf_def initializeGame_def updateCanvasSize_def updateConfig_def
  start_def gameLoop_def update_def updatePaddle_def updateBall_def loseLife_def resetBall_def gameOver_def
  checkCollisions_def paddleCollision_def isColliding_def hitBlock_def checkGameOver_def checkLevelComplete_def
  clickHandler_def Let_def

lemma hitEngine_hit:
  "destroyed (blocks (gameState hitEngine) ! 0)"
  "score (gameState hitEngine) = 30"
  "level (gameState hitEngine) = 1"
  "canvas hitEngine = \<lparr>canvas_width = 160, canvas_height = 120\<rparr>"
  by (simp_all add: hitEngine_def step_defs generateBlocks_grid blockRows_def blockCols_def
      gridRows_def upto.simps newBlock_def blockLoop.simps)

theorem updateCanvasSize_restores_blocks_witness:
  "reachable hitEngine \<and> destroyed (blocks (gameState hitEngine) ! 0) \<and>
   blocks (gameState (updateCanvasSize hitEngine)) =
     generateBlocks (configOf \<lparr>canvas_width = 160, canvas_height = 120\<rparr>) 1 \<and>
   length (blocks (gameState (updateCanvasSize hitEngine))) = 3 \<and>
   \<not> destroyed (blocks (gameState (updateCanvasSize hitEngine)) ! 0) \<and>
   score (gameState (updateCanvasSize hitEngine)) = 30"
proof -
  have r: "reachable hitEngine"
    unfolding hitEngine_def by (rule reachable_run) (rule reachable.constructed)
  note T = updateCanvasSize_restores_blocks [OF r, unfolded hitEngine_hit(3,4)]
  from T have regenerated: "blocks (gameState (updateCanvasSize hitEngine)) =
     generateBlocks (configOf \<lparr>canvas_width = 160, canvas_height = 120\<rparr>) 1"
    by (rule conjunct1)
  from T have "length (blocks (gameState (updateCanvasSize hitEngine))) =
      nat (min (3 + 1 div 2) 8) *
      nat \<lfloor>(real (canvas_width \<lparr>canvas_width = 160, canvas_height = 120\<rparr>) - 70) / 85\<rfloor>"
    by (rule conjunct2 [THEN conjunct1])
  then have len: "length (blocks (gameState (updateCanvasSize hitEngine))) = 3"
    by simp
  from T have live: "list_all (\<lambda>blk. \<not> destroyed blk)
      (blocks (gameState (updateCanvasSize hitEngine)))"
    by (rule conjunct2 [THEN conjunct2, THEN conjunct1])
  from T have sc: "score (gameState (updateCanvasSize hitEngine)) = score (gameState hitEngine)"
    by (rule conjunct2 [THEN conjunct2, THEN conjunct2, THEN conjunct1])
  from live len have "\<not> destroyed (blocks (gameState (updateCanvasSize hitEngine)) ! 0)"
    by (simp add: list_all_length)
  with r hitEngine_hit(1,2) regenerated len sc show ?thesis by (simp del: One_nat_def)
qed

section \<open>The game-over engine\<close>

lemma update_lives_le: "lives (update cfg ctl deltaTime gs) \<le> lives gs"
  using updateBall_lives [of cfg "updatePaddle cfg ctl gs"] by (auto simp: update_def)

lemma lostEngine_reachable: "reachable lostEngine"
  unfolding lostEngine_def by (rule reachable_run) (rule reachable.constructed)

text \<open>The game-over engine: no life left, stopped, and the ball still below the bottom edge.\<close>

lemma lostEngine_eq:
  "lostEngine =
     \<lparr>canvas = \<lparr>canvas_width = 400, canvas_height = 300\<rparr>,
      gameState =
        \<lparr>isRunning = False, isPaused = False, score = 0, lives = 0, level = 1,
         ball = \<lparr>position = \<lparr>x = 353, y = 549\<rparr>, color = ''#ff6b6b'',
                 velocity = \<lparr>vx = 3, vy = - 3\<rparr>, radius = 8\<rparr>,
         paddle = \<lparr>position = \<lparr>x = 300, y = 565\<rparr>, color = ''#4ecdc4'',
                   width = 100, height = 15, speed = 10\<rparr>,
         blocks = concat (gridRows 3 3 0)\<rparr>,
      controls = \<lparr>leftPressed = False, rightPressed = False, touchX = None\<rparr>,
      config = \<lparr>canvasWidth = 400, canvasHeight = 300, ballSpeed = 6, paddleSpeed = 10,
                 maxLives = 3\<rparr>,
      lastTime = 32\<rparr>"
  by (simp add: lostEngine_def canvas800_def step_defs generateBlocks_grid blockRows_def
      blockCols_def gridRows_def upto.simps newBlock_def blockLoop.simps)

lemma lostEngine_state:
  "lives (gameState lostEngine) = 0"
  "isRunning (gameState lostEngine) = False"
  "isPaused (gameState lostEngine) = False"
  "position (ball (gameState lostEngine)) = \<lparr>x = 353, y = 549\<rparr>"
  "velocity (ball (gameState lostEngine)) = \<lparr>vx = 3, vy = - 3\<rparr>"
  "radius (ball (gameState lostEngine)) = 8"
  "canvasHeight (config lostEngine) = 300"
  "canvasWidth (config lostEngine) = 400"
  by (simp_all add: lostEngine_eq)

section \<open>Lives\<close>

text \<open>
  What does hold of the counters. The score never goes down in an update; an update takes
  at most one life; and between events a running engine always has a life left, so the
  update of an animation frame never takes the lives below zero.
\<close>

lemma update_score_mono:
  assumes "stateInv gs"
  shows "score gs \<le> score (update cfg ctl deltaTime gs)"
proof -
  let ?mid = "paddleCollision cfg (updateBall cfg (updatePaddle cfg ctl gs))"
  from assms have pts: "list_all (\<lambda>blk. 0 < points blk) (blocks ?mid)"
    by (simp add: stateInv_def)
  have "score ?mid \<le> score (blockLoop 0 ?mid)"
    using blockLoop_cases [of 0 ?mid]
  proof (elim disjE conjE exE)
    assume "blockLoop 0 ?mid = ?mid"
    then show ?thesis by simp
  next
    fix j assume j: "j < length (blocks ?mid)" and eq: "blockLoop 0 ?mid = hitBlock j ?mid"
    from pts j have "0 < points (blocks ?mid ! j)" by (simp add: list_all_length)
    with eq show ?thesis by simp
  qed
  then show ?thesis by (simp add: update_score checkCollisions_def)
qed

lemma update_lives_ge: "lives gs - 1 \<le> lives (update cfg ctl deltaTime gs)"
  using updateBall_lives [of cfg "updatePaddle cfg ctl gs"] by (auto simp: update_def)

lemma running_lives_start:
  assumes "isRunning (gameState e) \<longrightarrow> 0 < lives (gameState e)"
  shows "isRunning (gameState (start now e)) \<longrightarrow> 0 < lives (gameState (start now e))"
  using assms by (simp add: gameState_start update_running_iff_lives)

lemma running_lives_update:
  assumes "isRunning gs \<longrightarrow> 0 < lives gs"
  shows "isRunning (update cfg ctl deltaTime gs) \<longrightarrow> 0 < lives (update cfg ctl deltaTime gs)"
proof (cases "isRunning gs \<and> \<not> isPaused gs")
  case True
  then show ?thesis by (simp add: update_running_iff_lives)
next
  case False
  with assms show ?thesis by (auto simp: update_def)
qed

lemma only_controls_differ:
  fixes e e' :: GameEngine
  assumes "gameState e' = gameState e" "config e' = config e" "canvas e' = canvas e"
    "lastTime e' = lastTime e"
  shows "e' = e\<lparr>controls := controls e'\<rparr>"
  using assms by (cases e, cases e') simp

lemma keyDownHandler_cases:
  "\<exists>c. keyDownHandler code now e = start now (e\<lparr>controls := c\<rparr>) \<or>
       keyDownHandler code now e = resume (e\<lparr>controls := c\<rparr>) \<or>
       keyDownHandler code now e = pause (e\<lparr>controls := c\<rparr>) \<or>
       keyDownHandler code now e = e\<lparr>controls := c\<rparr>"
proof -
  define e1 where "e1 = (if code = ''ArrowLeft'' \<or> code = ''KeyA''
      then e\<lparr>controls := (controls e)\<lparr>leftPressed := True\<rparr>\<rparr> else e)"
  define e2 where "e2 = (if code = ''ArrowRight'' \<or> code = ''KeyD''
      then e1\<lparr>controls := (controls e1)\<lparr>rightPressed := True\<rparr>\<rparr> else e1)"
  have "e2 = e\<lparr>controls := controls e2\<rparr>"
    by (rule only_controls_differ) (simp_all add: e1_def e2_def)
  moreover have "keyDownHandler code now e =
      (if code = ''Space'' then
           (if \<not> isRunning (gameState e2) then start now e2
            else if isPaused (gameState e2) then resume e2
            else pause e2)
         else e2)"
    unfolding keyDownHandler_def Let_def e1_def e2_def ..
  then have "keyDownHandler code now e = start now e2 \<or>
       keyDownHandler code now e = resume e2 \<or>
       keyDownHandler code now e = pause e2 \<or>
       keyDownHandler code now e = e2"
    by (simp split: if_splits)
  ultimately show ?thesis by metis
qed

lemma running_lives_handle:
  assumes "isRunning (gameState e) \<longrightarrow> 0 < lives (gameState e)"
  shows "isRunning (gameState (handle ev e)) \<longrightarrow> 0 < lives (gameState (handle ev e))"
proof (cases ev)
  case (KeyDown code now)
  from keyDownHandler_cases [of code now e] obtain c where
    c: "keyDownHandler code now e = start now (e\<lparr>controls := c\<rparr>) \<or>
       keyDownHandler code now e = resume (e\<lparr>controls := c\<rparr>) \<or>
       keyDownHandler code now e = pause (e\<lparr>controls := c\<rparr>) \<or>
       keyDownHandler code now e = e\<lparr>controls := c\<rparr>" by blast
  from assms have a: "isRunning (gameState (e\<lparr>controls := c\<rparr>)) \<longrightarrow>
      0 < lives (gameState (e\<lparr>controls := c\<rparr>))" by simp
  from c show ?thesis
  proof (elim disjE)
    assume "keyDownHandler code now e = start now (e\<lparr>controls := c\<rparr>)"
    with running_lives_start [OF a, of now] KeyDown show ?thesis by simp
  next
    assume "keyDownHandler code now e = resume (e\<lparr>controls := c\<rparr>)"
    with assms KeyDown show ?thesis by (simp add: resume_def)
  next
    assume "keyDownHandler code now e = pause (e\<lparr>controls := c\<rparr>)"
    with assms KeyDown show ?thesis by (simp add: pause_def)
  next
    assume "keyDownHandler code now e = e\<lparr>controls := c\<rparr>"
    with assms KeyDown show ?thesis by simp
  qed
next
  case (KeyUp code)
  have "gameState (keyUpHandler code e) = gameState e"
    by (simp add: keyUpHandler_def Let_def)
  with assms KeyUp show ?thesis by simp
next
  case (TouchStart tx now)
  have "isRunning (gameState (e\<lparr>controls := (controls e)\<lparr>touchX := Some tx\<rparr>\<rparr>)) \<longrightarrow>
      0 < lives (gameState (e\<lparr>controls := (controls e)\<lparr>touchX := Some tx\<rparr>\<rparr>))"
    using assms by simp
  from running_lives_start [OF this, of now] assms TouchStart show ?thesis
    by (simp add: touchStartHandler_def Let_def)
next
  case (TouchMove touch)
  with assms show ?thesis by (cases touch) (simp_all add: touchMoveHandler_def)
next
  case TouchEnd
  with assms show ?thesis by (simp add: touchEndHandler_def)
next
  case (MouseMove tx)
  with assms show ?thesis by (simp add: mouseMoveHandler_def)
next
  case (Click now)
  with assms running_lives_start [OF assms, of now] show ?thesis
    by (simp add: clickHandler_def)
next
  case (Start now)
  with running_lives_start [OF assms, of now] show ?thesis by simp
next
  case (Frame t)
  with running_lives_update [OF assms] show ?thesis by simp
next
  case Pause
  with assms show ?thesis by (simp add: pause_def)
next
  case Resume
  with assms show ?thesis by (simp add: resume_def)
next
  case Reset
  then show ?thesis by (simp add: reset_def initializeGame_def Let_def)
next
  case (SetCanvasSize w h)
  with assms show ?thesis by simp
next
  case UpdateCanvasSize
  with assms show ?thesis by (simp add: updateCanvasSize_def updateConfig_def Let_def)
qed

lemma reachable_running_lives:
  "reachable e \<Longrightarrow> isRunning (gameState e) \<Longrightarrow> 0 < lives (gameState e)"
proof (induction rule: reachable.induct)
  case (constructed cv)
  then show ?case by (simp add: newGameEngine_def initializeGame_def Let_def)
next
  case (handled e ev)
  with running_lives_handle [of e ev] show ?case by blast
qed

lemma frame_keeps_lives_nonnegative:
  assumes "reachable e" "0 \<le> lives (gameState e)"
  shows "0 \<le> lives (gameState (handle (Frame t) e))"
proof (cases "isRunning (gameState e)")
  case True
  with assms(1) have "0 < lives (gameState e)" by (rule reachable_running_lives)
  with update_lives_ge [of "gameState e" "config e" "controls e" "t - lastTime e"]
  show ?thesis by simp
next
  case False
  with assms(2) show ?thesis by (simp add: update_def)
qed

text \<open>
  Claim C4 at its failing input. The game-over engine is reachable and has lives = 0; a
  click on the canvas calls \<open>start()\<close>, whose frame finds the ball still below the bottom
  edge and takes another life: the engine reaches a state with lives = -1.
\<close>

theorem lives_negative_after_restart:
  "reachable lostEngine \<and> lives (gameState lostEngine) = 0 \<and>
   lives (gameState (handle (Click 48) lostEngine)) = - 1 \<and>
   reachable (handle (Click 48) lostEngine)"
proof -
  have "lives (gameState (handle (Click 48) lostEngine)) = - 1"
    by (simp add: clickHandler_def gameState_start lostEngine_state update_def updateBall_def
        Let_def)
  with lostEngine_reachable reachable.handled [OF lostEngine_reachable, of "Click 48"]
  show ?thesis by (simp add: lostEngine_state)
qed

section \<open>Starting the game\<close>

text \<open>
  What holds of \<open>start()\<close>. While the game runs it changes nothing. A stopped engine is
  either fresh (constructed or reset, with all three lives) or over (no life left); on a
  stopped engine with a life left, \<open>start()\<close> sets running to true and paused to false,
  and they are still so when it returns from the first frame, which it runs itself.
\<close>

lemma start_ignored_when_running: "isRunning (gameState e) \<Longrightarrow> start now e = e"
  by (simp add: start_def)

lemma start_result:
  assumes "\<not> isRunning (gameState e)"
  shows "gameState (start now e) =
      update (config e) (controls e) 0 ((gameState e)\<lparr>isRunning := True, isPaused := False\<rparr>)"
    and "\<not> isPaused (gameState (start now e))"
    and "isRunning (gameState (start now e)) = (0 < lives (gameState (start now e)))"
  using assms by (simp_all add: gameState_start update_running_iff_lives)

lemma fresh_or_over_update:
  assumes "isRunning gs \<or> lives gs = 3 \<or> lives gs \<le> 0"
  shows "isRunning (update cfg ctl deltaTime gs) \<or> lives (update cfg ctl deltaTime gs) = 3 \<or>
         lives (update cfg ctl deltaTime gs) \<le> 0"
proof (cases "isRunning gs \<and> \<not> isPaused gs")
  case True
  then have "isRunning (update cfg ctl deltaTime gs) = (0 < lives (update cfg ctl deltaTime gs))"
    by (simp add: update_running_iff_lives)
  then show ?thesis by auto
next
  case False
  with assms show ?thesis by (auto simp: update_def)
qed

lemma fresh_or_over_start:
  assumes "isRunning (gameState e) \<or> lives (gameState e) = 3 \<or> lives (gameState e) \<le> 0"
  shows "isRunning (gameState (start now e)) \<or> lives (gameState (start now e)) = 3 \<or>
         lives (gameState (start now e)) \<le> 0"
proof (cases "isRunning (gameState e)")
  case True
  with assms show ?thesis by (simp add: start_def)
next
  case False
  from start_result(3) [OF False, of now] show ?thesis by auto
qed

lemma config_ops [simp]:
  "config (pause e) = config e"
  "config (resume e) = config e"
  "config (reset e) = config e"
  "maxLives (config (updateCanvasSize e)) = 3"
  by (simp_all add: pause_def resume_def reset_def updateCanvasSize_def updateConfig_def
      configOf_def Let_def)

lemma fresh_or_over_handle:
  assumes "isRunning (gameState e) \<or> lives (gameState e) = 3 \<or> lives (gameState e) \<le> 0"
    and "maxLives (config e) = 3"
  shows "(isRunning (gameState (handle ev e)) \<or> lives (gameState (handle ev e)) = 3 \<or>
          lives (gameState (handle ev e)) \<le> 0) \<and> maxLives (config (handle ev e)) = 3"
proof (cases ev)
  case (KeyDown code now)
  from keyDownHandler_cases [of code now e] obtain c where
    c: "keyDownHandler code now e = start now (e\<lparr>controls := c\<rparr>) \<or>
       keyDownHandler code now e = resume (e\<lparr>controls := c\<rparr>) \<or>
       keyDownHandler code now e = pause (e\<lparr>controls := c\<rparr>) \<or>
       keyDownHandler code now e = e\<lparr>controls := c\<rparr>" by blast
  from assms(1) have a: "isRunning (gameState (e\<lparr>controls := c\<rparr>)) \<or>
      lives (gameState (e\<lparr>controls := c\<rparr>)) = 3 \<or> lives (gameState (e\<lparr>controls := c\<rparr>)) \<le> 0"
    by simp
  from c show ?thesis
  proof (elim disjE)
    assume "keyDownHandler code now e = start now (e\<lparr>controls := c\<rparr>)"
    with fresh_or_over_start [OF a, of now] assms(2) KeyDown show ?thesis by simp
  next
    assume "keyDownHandler code now e = resume (e\<lparr>controls := c\<rparr>)"
    with assms KeyDown show ?thesis by (simp add: resume_def)
  next
    assume "keyDownHandler code now e = pause (e\<lparr>controls := c\<rparr>)"
    with assms KeyDown show ?thesis by (simp add: pause_def)
  next
    assume "keyDownHandler code now e = e\<lparr>controls := c\<rparr>"
    with assms KeyDown show ?thesis by simp
  qed
next
  case (KeyUp code)
  have "gameState (keyUpHandler code e) = gameState e" "config (keyUpHandler code e) = config e"
    by (simp_all add: keyUpHandler_def Let_def)
  with assms KeyUp show ?thesis by simp
next
  case (TouchStart tx now)
  have "isRunning (gameState (e\<lparr>controls := (controls e)\<lparr>touchX := Some tx\<rparr>\<rparr>)) \<or>
      lives (gameState (e\<lparr>controls := (controls e)\<lparr>touchX := Some tx\<rparr>\<rparr>)) = 3 \<or>
      lives (gameState (e\<lparr>controls := (controls e)\<lparr>touchX := Some tx\<rparr>\<rparr>)) \<le> 0"
    using assms(1) by simp
  from fresh_or_over_start [OF this, of now] assms TouchStart show ?thesis
    by (simp add: touchStartHandler_def Let_def)
next
  case (TouchMove touch)
  with assms show ?thesis by (cases touch) (simp_all add: touchMoveHandler_def)
next
  case TouchEnd
  with assms show ?thesis by (simp add: touchEndHandler_def)
next
  case (MouseMove tx)
  with assms show ?thesis by (simp add: mouseMoveHandler_def)
next
  case (Click now)
  with assms fresh_or_over_start [OF assms(1), of now] show ?thesis
    by (simp add: clickHandler_def)
next
  case (Start now)
  with assms(2) fresh_or_over_start [OF assms(1), of now] show ?thesis by simp
next
  case (Frame t)
  with assms(2) fresh_or_over_update [OF assms(1)] show ?thesis by simp
next
  case Pause
  with assms show ?thesis by (simp add: pause_def)
next
  case Resume
  with assms show ?thesis by (simp add: resume_def)
next
  case Reset
  with assms(2) show ?thesis by (simp add: reset_def initializeGame_def Let_def)
next
  case (SetCanvasSize w h)
  with assms show ?thesis by simp
next
  case UpdateCanvasSize
  with assms(1) show ?thesis by (simp add: updateCanvasSize_def updateConfig_def configOf_def Let_def)
qed

lemma reachable_fresh_or_over:
  assumes "reachable e"
  shows "(isRunning (gameState e) \<or> lives (gameState e) = 3 \<or> lives (gameState e) \<le> 0) \<and>
         maxLives (config e) = 3"
  using assms
proof (induction rule: reachable.induct)
  case (constructed cv)
  show ?case by (simp add: newGameEngine_def initializeGame_def configOf_def Let_def)
next
  case (handled e ev)
  then show ?case using fresh_or_over_handle [of e ev] by blast
qed

lemma start_with_lives:
  assumes "reachable e" "\<not> isRunning (gameState e)" "0 < lives (gameState e)"
  shows "isRunning (gameState (start now e)) \<and> \<not> isPaused (gameState (start now e))"
proof -
  from reachable_fresh_or_over [OF assms(1)] assms(2,3) have three: "lives (gameState e) = 3"
    by auto
  have "lives ((gameState e)\<lparr>isRunning := True, isPaused := False\<rparr>) - 1
      \<le> lives (update (config e) (controls e) 0 ((gameState e)\<lparr>isRunning := True, isPaused := False\<rparr>))"
    by (rule update_lives_ge)
  with three start_result(1) [OF assms(2), of now]
  have "0 < lives (gameState (start now e))" by simp
  with start_result(2,3) [OF assms(2), of now] show ?thesis by simp
qed

text \<open>
  Claim C8 at its failing input. The game-over engine is reachable and stopped; \<open>start()\<close>
  on it sets running to true, but its first frame takes another life and stops the run
  again: when \<open>start()\<close> returns, running is false and lives = -1.
\<close>

theorem start_after_game_over:
  "reachable lostEngine \<and> \<not> isRunning (gameState lostEngine) \<and>
   lives (gameState lostEngine) = 0 \<and>
   \<not> isRunning (gameState (start 48 lostEngine)) \<and>
   lives (gameState (start 48 lostEngine)) = - 1"
proof -
  have l: "lives (gameState (start 48 lostEngine)) = - 1"
    by (simp add: gameState_start lostEngine_state update_def updateBall_def Let_def)
  have "isRunning (gameState (start 48 lostEngine)) =
      (0 < lives (gameState (start 48 lostEngine)))"
    by (rule start_result(3)) (simp add: lostEngine_state)
  with l have "\<not> isRunning (gameState (start 48 lostEngine))" by simp
  with l lostEngine_reachable show ?thesis by (simp add: lostEngine_state)
qed

section \<open>The pointer coordinate\<close>

lemma controls_ops [simp]:
  "controls (pause e) = controls e"
  "controls (resume e) = controls e"
  "controls (reset e) = controls e"
  "controls (updateCanvasSize e) = controls e"
  by (simp_all add: pause_def resume_def reset_def updateCanvasSize_def updateConfig_def Let_def)

lemma touchX_handle:
  assumes "ev \<noteq> TouchEnd" "touchX (controls e) \<noteq> None"
  shows "touchX (controls (handle ev e)) \<noteq> None"
  using assms
  by (cases ev)
     (auto simp: keyDownHandler_def keyUpHandler_def touchStartHandler_def touchMoveHandler_def
        mouseMoveHandler_def clickHandler_def Let_def split: option.splits)

lemma touchX_run:
  assumes "TouchEnd \<notin> set evs" "touchX (controls e) \<noteq> None"
  shows "touchX (controls (run evs e)) \<noteq> None"
  using assms
proof (induction evs arbitrary: e)
  case Nil
  then show ?case by (simp add: run_def)
next
  case (Cons a evs)
  from Cons.prems have a: "a \<noteq> TouchEnd" and rest: "TouchEnd \<notin> set evs" by auto
  from a Cons.prems(2) have "touchX (controls (handle a e)) \<noteq> None"
    by (rule touchX_handle)
  with rest have "touchX (controls (run evs (handle a e))) \<noteq> None"
    by (rule Cons.IH)
  then show ?case by (simp add: run_def)
qed

lemma updatePaddle_pointer:
  assumes "touchX ctl = Some t"
  shows "updatePaddle cfg (ctl\<lparr>leftPressed := l, rightPressed := r\<rparr>) gs = updatePaddle cfg ctl gs"
    and "x (position (paddle (updatePaddle cfg ctl gs))) =
           max 0 (min (canvasWidth cfg - width (paddle gs)) (t - width (paddle gs) / 2))"
  using assms by (simp_all add: updatePaddle_def Let_def)

text \<open>
  Claim C10. A mouse-move event stores its coordinate as the pointer coordinate; no event
  other than touch-end (so no mouse event) turns a present pointer coordinate into an
  absent one; touch-end makes it absent. Hence after a mouse move followed by any events
  without a touch-end the pointer coordinate is present, and every paddle update then
  places the paddle at that coordinate minus half its width, clamped to the surface,
  whatever the left and right key flags are.
\<close>

theorem pointer_overrides_keys:
  "touchX (controls (handle (MouseMove tx) e)) = Some tx \<and>
   (\<forall>ev. ev \<noteq> TouchEnd \<and> touchX (controls e) \<noteq> None \<longrightarrow>
           touchX (controls (handle ev e)) \<noteq> None) \<and>
   touchX (controls (handle TouchEnd e)) = None \<and>
   (\<forall>evs. TouchEnd \<notin> set evs \<longrightarrow>
      (\<exists>t. touchX (controls (run (MouseMove tx # evs) e)) = Some t \<and>
         (\<forall>cfg gs l r.
            updatePaddle cfg ((controls (run (MouseMove tx # evs) e))
                \<lparr>leftPressed := l, rightPressed := r\<rparr>) gs =
              updatePaddle cfg (controls (run (MouseMove tx # evs) e)) gs \<and>
            x (position (paddle (updatePaddle cfg (controls (run (MouseMove tx # evs) e)) gs))) =
              max 0 (min (canvasWidth cfg - width (paddle gs)) (t - width (paddle gs) / 2)))))"
proof (intro conjI allI impI)
  show "touchX (controls (handle (MouseMove tx) e)) = Some tx"
    by (simp add: mouseMoveHandler_def)
next
  fix ev assume "ev \<noteq> TouchEnd \<and> touchX (controls e) \<noteq> None"
  then show "touchX (controls (handle ev e)) \<noteq> None" by (simp add: touchX_handle)
next
  show "touchX (controls (handle TouchEnd e)) = None" by (simp add: touchEndHandler_def)
next
  fix evs assume noEnd: "TouchEnd \<notin> set evs"
  let ?ctl = "controls (run (MouseMove tx # evs) e)"
  have "run (MouseMove tx # evs) e = run evs (handle (MouseMove tx) e)"
    by (simp add: run_def)
  moreover have "touchX (controls (handle (MouseMove tx) e)) \<noteq> None"
    by (simp add: mouseMoveHandler_def)
  ultimately have "touchX ?ctl \<noteq> None"
    using touchX_run [OF noEnd] by simp
  then obtain t where t: "touchX ?ctl = Some t" by auto
  show "\<exists>t. touchX ?ctl = Some t \<and>
         (\<forall>cfg gs l r.
            updatePaddle cfg (?ctl\<lparr>leftPressed := l, rightPressed := r\<rparr>) gs =
              updatePaddle cfg ?ctl gs \<and>
            x (position (paddle (updatePaddle cfg ?ctl gs))) =
              max 0 (min (canvasWidth cfg - width (paddle gs)) (t - width (paddle gs) / 2)))"
    using t updatePaddle_pointer [OF t] by blast
qed

theorem pointer_overrides_keys_witness:
  "TouchEnd \<notin> set keysThenFrame \<and>
   touchX (controls (run (MouseMove 200 # keysThenFrame) (newGameEngine canvas800))) = Some 200 \<and>
   rightPressed (controls (run (MouseMove 200 # keysThenFrame) (newGameEngine canvas800))) \<and>
   x (position (paddle (updatePaddle (configOf canvas800)
        (controls (run (MouseMove 200 # keysThenFrame) (newGameEngine canvas800)))
        (initializeGame (configOf canvas800))))) = 150"
proof -
  let ?ctl = "controls (run (MouseMove 200 # keysThenFrame) (newGameEngine canvas800))"
  have noEnd: "TouchEnd \<notin> set keysThenFrame" by (simp add: keysThenFrame_def)
  have ctl: "?ctl = \<lparr>leftPressed = False, rightPressed = True, touchX = Some 200\<rparr>"
    by (simp add: keysThenFrame_def run_def keyDownHandler_def keyUpHandler_def
        mouseMoveHandler_def clickHandler_def newGameEngine_def Let_def)
  from pointer_overrides_keys [of 200 "newGameEngine canvas800"] noEnd
  obtain t where t: "touchX ?ctl = Some t"
    and pos: "\<And>cfg gs. x (position (paddle (updatePaddle cfg ?ctl gs))) =
        max 0 (min (canvasWidth cfg - width (paddle gs)) (t - width (paddle gs) / 2))"
    by blast
  from t ctl have "t = 200" by simp
  with pos [of "configOf canvas800" "initializeGame (configOf canvas800)"]
  have "x (position (paddle (updatePaddle (configOf canvas800) ?ctl
          (initializeGame (configOf canvas800))))) = 150"
    by (simp add: configOf_def canvas800_def initializeGame_def Let_def)
  with noEnd ctl show ?thesis by simp
qed

section \<open>Block collisions\<close>

lemma destroyed_count_update:
  assumes "j < length xs"
  shows "length (filter destroyed (xs[j := (xs ! j)\<lparr>destroyed := True\<rparr>]))
           \<le> Suc (length (filter destroyed xs))"
proof -
  have "xs[j := (xs ! j)\<lparr>destroyed := True\<rparr>] =
          take j xs @ (xs ! j)\<lparr>destroyed := True\<rparr> # drop (Suc j) xs"
    using assms by (rule upd_conv_take_nth_drop)
  moreover have "xs = take j xs @ xs ! j # drop (Suc j) xs"
    using assms by (rule id_take_nth_drop)
  then have "length (filter destroyed xs) =
      length (filter destroyed (take j xs)) + length (filter destroyed [xs ! j])
        + length (filter destroyed (drop (Suc j) xs))"
    by (metis append_Cons append_Nil filter_append length_append add.assoc)
  ultimately show ?thesis by simp
qed

text \<open>
  Claim C6. In a per-frame update the block loop destroys at most one block. With \<open>mid\<close>
  the state when the loop starts and \<open>after\<close> the state when it ends: either no live block
  overlaps the ball and blocks and score are unchanged, or the first live overlapping block
  in stored order, \<open>j\<close>, gets its destroyed flag set and exactly its points are added to
  the score, while every other block, overlapping or not, is as it was. The score at the
  end of the update is the score after the loop.
\<close>

theorem one_block_per_frame:
  fixes cfg :: GameConfig and ctl :: Controls and gs :: GameState
  defines "mid \<equiv> paddleCollision cfg (updateBall cfg (updatePaddle cfg ctl gs))"
    and "after \<equiv> checkCollisions cfg (updateBall cfg (updatePaddle cfg ctl gs))"
  shows "score (update cfg ctl deltaTime gs) =
           (if isRunning gs \<and> \<not> isPaused gs then score after else score gs) \<and>
         length (filter destroyed (blocks after)) \<le> length (filter destroyed (blocks gs)) + 1 \<and>
         ((blocks after = blocks gs \<and> score after = score gs \<and>
           (\<forall>k. k < length (blocks gs) \<longrightarrow>
                destroyed (blocks gs ! k) \<or> \<not> isColliding (ball mid) (blocks gs ! k))) \<or>
          (\<exists>j. j < length (blocks gs) \<and>
               \<not> destroyed (blocks gs ! j) \<and> isColliding (ball mid) (blocks gs ! j) \<and>
               (\<forall>k. k < j \<longrightarrow>
                    destroyed (blocks gs ! k) \<or> \<not> isColliding (ball mid) (blocks gs ! k)) \<and>
               blocks after = (blocks gs)[j := (blocks gs ! j)\<lparr>destroyed := True\<rparr>] \<and>
               (\<forall>k. k < length (blocks gs) \<and> k \<noteq> j \<longrightarrow> blocks after ! k = blocks gs ! k) \<and>
               score after = score gs + points (blocks gs ! j)))"
proof -
  have after: "after = blockLoop 0 mid"
    by (simp add: after_def mid_def checkCollisions_def)
  have bm: "blocks mid = blocks gs" and sm: "score mid = score gs"
    by (simp_all add: mid_def)
  from blockLoop_cases [of 0 mid]
  have cases: "(blocks after = blocks gs \<and> score after = score gs \<and>
           (\<forall>k. k < length (blocks gs) \<longrightarrow>
                destroyed (blocks gs ! k) \<or> \<not> isColliding (ball mid) (blocks gs ! k))) \<or>
          (\<exists>j. j < length (blocks gs) \<and>
               \<not> destroyed (blocks gs ! j) \<and> isColliding (ball mid) (blocks gs ! j) \<and>
               (\<forall>k. k < j \<longrightarrow>
                    destroyed (blocks gs ! k) \<or> \<not> isColliding (ball mid) (blocks gs ! k)) \<and>
               blocks after = (blocks gs)[j := (blocks gs ! j)\<lparr>destroyed := True\<rparr>] \<and>
               (\<forall>k. k < length (blocks gs) \<and> k \<noteq> j \<longrightarrow> blocks after ! k = blocks gs ! k) \<and>
               score after = score gs + points (blocks gs ! j))"
  proof (elim disjE conjE exE)
    assume "blockLoop 0 mid = mid"
      and "\<forall>k. 0 \<le> k \<and> k < length (blocks mid) \<longrightarrow>
         destroyed (blocks mid ! k) \<or> \<not> isColliding (ball mid) (blocks mid ! k)"
    then show ?thesis by (simp add: after bm sm)
  next
    fix j
    assume j: "j < length (blocks mid)" "\<not> destroyed (blocks mid ! j)"
        "isColliding (ball mid) (blocks mid ! j)"
      and first: "\<forall>k. 0 \<le> k \<and> k < j \<longrightarrow>
         destroyed (blocks mid ! k) \<or> \<not> isColliding (ball mid) (blocks mid ! k)"
      and hit: "blockLoop 0 mid = hitBlock j mid"
    from hit have "blocks after = (blocks gs)[j := (blocks gs ! j)\<lparr>destroyed := True\<rparr>]"
      and "score after = score gs + points (blocks gs ! j)"
      by (simp_all add: after bm sm)
    with j first show ?thesis
      by (intro disjI2 exI [of _ j]) (simp add: bm)
  qed
  from cases have count:
    "length (filter destroyed (blocks after)) \<le> length (filter destroyed (blocks gs)) + 1"
    by (auto simp: destroyed_count_update)
  have "score (update cfg ctl deltaTime gs) =
           (if isRunning gs \<and> \<not> isPaused gs then score after else score gs)"
    by (simp add: update_score after_def)
  with count cases show ?thesis by blast
qed

lemma twoBlock_eval:
  "blocks twoBlockState = concat (gridRows 3 8 0)"
  "ball (paddleCollision (configOf canvas800)
      (updateBall (configOf canvas800) (updatePaddle (configOf canvas800) noInput twoBlockState)))
    = \<lparr>position = \<lparr>x = 117.5, y = 72\<rparr>, color = ''#ff6b6b'',
       velocity = \<lparr>vx = 3, vy = - 3\<rparr>, radius = 8\<rparr>"
  by (simp_all add: twoBlockState_def noInput_def canvas800_def configOf_def initializeGame_def
      generateBlocks_grid blockRows_def blockCols_def Let_def
      updatePaddle_def updateBall_def paddleCollision_def isColliding_def)

theorem one_block_per_frame_witness:
  "isRunning twoBlockState \<and> \<not> isPaused twoBlockState \<and>
   \<not> destroyed (blocks twoBlockState ! 0) \<and> \<not> destroyed (blocks twoBlockState ! 1) \<and>
   isColliding \<lparr>position = \<lparr>x = 117.5, y = 72\<rparr>, color = ''#ff6b6b'',
       velocity = \<lparr>vx = 3, vy = - 3\<rparr>, radius = 8\<rparr> (blocks twoBlockState ! 0) \<and>
   isColliding \<lparr>position = \<lparr>x = 117.5, y = 72\<rparr>, color = ''#ff6b6b'',
       velocity = \<lparr>vx = 3, vy = - 3\<rparr>, radius = 8\<rparr> (blocks twoBlockState ! 1) \<and>
   blocks (checkCollisions (configOf canvas800)
      (updateBall (configOf canvas800) (updatePaddle (configOf canvas800) noInput twoBlockState)))
     = (blocks twoBlockState)[0 := (blocks twoBlockState ! 0)\<lparr>destroyed := True\<rparr>] \<and>
   score (update (configOf canvas800) noInput 16 twoBlockState) = 30"
proof -
  let ?cfg = "configOf canvas800"
  let ?b = "\<lparr>position = \<lparr>x = 117.5, y = 72\<rparr>, color = ''#ff6b6b'',
       velocity = \<lparr>vx = 3, vy = - 3\<rparr>, radius = 8::real\<rparr>"
  let ?after = "checkCollisions ?cfg (updateBall ?cfg (updatePaddle ?cfg noInput twoBlockState))"
  have flags: "isRunning twoBlockState" "\<not> isPaused twoBlockState" "score twoBlockState = 0"
    by (simp_all add: twoBlockState_def initializeGame_def Let_def)
  have b0: "blocks twoBlockState ! 0 = newBlock 3 0 0"
    and b1: "blocks twoBlockState ! 1 = newBlock 3 0 1"
    and len: "0 < length (blocks twoBlockState)"
    by (simp_all add: twoBlock_eval(1) gridRows_def upto.simps)
  have live: "\<not> destroyed (blocks twoBlockState ! 0)" "\<not> destroyed (blocks twoBlockState ! 1)"
    and pts: "points (blocks twoBlockState ! 0) = 30"
    unfolding b0 b1 by (simp_all add: newBlock_def)
  have hit: "isColliding ?b (blocks twoBlockState ! 0)" "isColliding ?b (blocks twoBlockState ! 1)"
    unfolding b0 b1 by (simp_all add: newBlock_def isColliding_def Let_def)
  from one_block_per_frame [of ?cfg noInput 16 twoBlockState, unfolded twoBlock_eval(2)]
  have sc: "score (update ?cfg noInput 16 twoBlockState) = score ?after"
    and cases: "(blocks ?after = blocks twoBlockState \<and> score ?after = score twoBlockState \<and>
           (\<forall>k. k < length (blocks twoBlockState) \<longrightarrow>
                destroyed (blocks twoBlockState ! k) \<or> \<not> isColliding ?b (blocks twoBlockState ! k))) \<or>
          (\<exists>j. j < length (blocks twoBlockState) \<and>
               \<not> destroyed (blocks twoBlockState ! j) \<and> isColliding ?b (blocks twoBlockState ! j) \<and>
               (\<forall>k. k < j \<longrightarrow>
                    destroyed (blocks twoBlockState ! k) \<or> \<not> isColliding ?b (blocks twoBlockState ! k)) \<and>
               blocks ?after = (blocks twoBlockState)[j := (blocks twoBlockState ! j)\<lparr>destroyed := True\<rparr>] \<and>
               (\<forall>k. k < length (blocks twoBlockState) \<and> k \<noteq> j \<longrightarrow>
                    blocks ?after ! k = blocks twoBlockState ! k) \<and>
               score ?after = score twoBlockState + points (blocks twoBlockState ! j))"
    using flags by simp_all
  from cases have "blocks ?after = (blocks twoBlockState)[0 := (blocks twoBlockState ! 0)\<lparr>destroyed := True\<rparr>]
      \<and> score ?after = 30"
  proof (elim disjE conjE exE)
    assume "\<forall>k. k < length (blocks twoBlockState) \<longrightarrow>
                destroyed (blocks twoBlockState ! k) \<or> \<not> isColliding ?b (blocks twoBlockState ! k)"
    with len live hit show ?thesis by blast
  next
    fix j
    assume first: "\<forall>k. k < j \<longrightarrow>
          destroyed (blocks twoBlockState ! k) \<or> \<not> isColliding ?b (blocks twoBlockState ! k)"
      and upd: "blocks ?after = (blocks twoBlockState)[j := (blocks twoBlockState ! j)\<lparr>destroyed := True\<rparr>]"
      and s: "score ?after = score twoBlockState + points (blocks twoBlockState ! j)"
    from first live hit have "j = 0" by (cases j) auto
    with upd s flags pts show ?thesis by simp
  qed
  with sc flags live hit show ?thesis by simp
qed

section \<open>Rescaling a velocity\<close>

lemma rescaled_speed:
  fixes a b t :: real
  assumes "a \<noteq> 0 \<or> b \<noteq> 0" "0 \<le> t"
  shows "sqrt ((a / sqrt (a\<^sup>2 + b\<^sup>2) * t)\<^sup>2 + (b / sqrt (a\<^sup>2 + b\<^sup>2) * t)\<^sup>2) = t"
proof -
  define d where "d = a\<^sup>2 + b\<^sup>2"
  from assms(1) have pos: "0 < d"
    unfolding d_def by (metis add_pos_nonneg add_nonneg_pos zero_less_power2 zero_le_power2)
  have "(a / sqrt d * t)\<^sup>2 + (b / sqrt d * t)\<^sup>2 = (a\<^sup>2 * t\<^sup>2) / d + (b\<^sup>2 * t\<^sup>2) / d"
    using pos by (simp add: power_mult_distrib power_divide)
  also have "\<dots> = (d * t\<^sup>2) / d"
    unfolding d_def by (simp only: add_divide_distrib distrib_right)
  also have "\<dots> = t\<^sup>2" using pos by simp
  finally have "sqrt ((a / sqrt d * t)\<^sup>2 + (b / sqrt d * t)\<^sup>2) = sqrt (t\<^sup>2)" by simp
  with assms(2) show ?thesis unfolding d_def by simp
qed

section \<open>The paddle collision\<close>

text \<open>
  The paddle never has width zero where the paddle step runs: in every reachable state its
  width is 100, and the two steps before the paddle step do not change it.
\<close>

lemma reachable_paddle_width:
  "reachable e \<Longrightarrow>
   width (paddle (updateBall cfg (updatePaddle cfg ctl (gameState e)))) = 100"
  using reachable_stateInv [of e] by (simp add: stateInv_def)

text \<open>
  Claim C5. When the ball overlaps the paddle and its vertical velocity is downward
  (positive), then after the paddle-collision step the vertical velocity is strictly
  negative and the speed is exactly 6, the configured ball speed (over the reals; in
  floating point this is "within tolerance"). The new velocity is the vector
  \<open>(hitPos * 5, -vy)\<close> rescaled to length 6, where \<open>hitPos\<close> is the offset of the ball from
  the paddle centre divided by half the paddle width, clamped to [-1, 1]. The division by
  half the paddle width is the reason for the assumption that the width is not zero.
\<close>

theorem paddle_bounce:
  fixes gs :: GameState and cv :: canvas
  defines "hitPos \<equiv> max (- 1) (min 1
      ((x (position (ball gs)) - (x (position (paddle gs)) + width (paddle gs) / 2))
         / (width (paddle gs) / 2)))"
    and "v' \<equiv> velocity (ball (paddleCollision (configOf cv) gs))"
  assumes "isColliding (ball gs) (paddle gs)" and "0 < vy (velocity (ball gs))"
    and "width (paddle gs) \<noteq> 0"
  shows "vy v' < 0 \<and> sqrt ((vx v')\<^sup>2 + (vy v')\<^sup>2) = 6 \<and>
         - 1 \<le> hitPos \<and> hitPos \<le> 1 \<and>
         vx v' = hitPos * 5 / sqrt ((hitPos * 5)\<^sup>2 + (vy (velocity (ball gs)))\<^sup>2) * 6 \<and>
         vy v' = - vy (velocity (ball gs)) / sqrt ((hitPos * 5)\<^sup>2 + (vy (velocity (ball gs)))\<^sup>2) * 6"
proof -
  let ?a = "hitPos * 5" and ?b = "- vy (velocity (ball gs))"
  let ?s = "sqrt (?a\<^sup>2 + ?b\<^sup>2)"
  from assms(4) have b: "?b \<noteq> 0" by simp
  have v': "v' = \<lparr>vx = ?a / ?s * 6, vy = ?b / ?s * 6\<rparr>"
    using assms(3,4)
    by (simp add: v'_def hitPos_def paddleCollision_def configOf_def Let_def power2_eq_square)
  have "0 < ?a\<^sup>2 + ?b\<^sup>2"
    using b by (metis add_nonneg_pos zero_less_power2 zero_le_power2)
  then have s: "0 < ?s" by simp
  with assms(4) have neg: "?b / ?s * 6 < 0"
    by (simp add: divide_neg_pos mult_neg_pos)
  have mag: "sqrt ((?a / ?s * 6)\<^sup>2 + (?b / ?s * 6)\<^sup>2) = 6"
    using b by (intro rescaled_speed) simp_all
  have range: "- 1 \<le> hitPos" "hitPos \<le> 1" by (simp_all add: hitPos_def)
  from neg mag range show ?thesis by (simp add: v')
qed

lemma bounceEngine_eq:
  "bounceEngine =
     \<lparr>canvas = \<lparr>canvas_width = 160, canvas_height = 120\<rparr>,
      gameState =
        \<lparr>isRunning = True, isPaused = False, score = 30, lives = 3, level = 1,
         ball = \<lparr>position = \<lparr>x = 77, y = 75\<rparr>, color = ''#ff6b6b'',
                 velocity = \<lparr>vx = - 3, vy = 3\<rparr>, radius = 8\<rparr>,
         paddle = \<lparr>position = \<lparr>x = 30, y = 85\<rparr>, color = ''#4ecdc4'',
                   width = 100, height = 15, speed = 10\<rparr>,
         blocks = [(newBlock 3 0 0)\<lparr>destroyed := True\<rparr>, newBlock 3 1 0, newBlock 3 2 0]\<rparr>,
      controls = \<lparr>leftPressed = False, rightPressed = False, touchX = None\<rparr>,
      config = \<lparr>canvasWidth = 160, canvasHeight = 120, ballSpeed = 6, paddleSpeed = 10,
                 maxLives = 3\<rparr>,
      lastTime = 32\<rparr>"
  by (simp add: bounceEngine_def step_defs generateBlocks_grid blockRows_def
      blockCols_def gridRows_def upto.simps newBlock_def blockLoop.simps)

theorem paddle_bounce_witness:
  "reachable bounceEngine \<and>
   isColliding
     (ball (updateBall (config bounceEngine)
        (updatePaddle (config bounceEngine) (controls bounceEngine) (gameState bounceEngine))))
     (paddle (updateBall (config bounceEngine)
        (updatePaddle (config bounceEngine) (controls bounceEngine) (gameState bounceEngine)))) \<and>
   vy (velocity (ball (updateBall (config bounceEngine)
        (updatePaddle (config bounceEngine) (controls bounceEngine) (gameState bounceEngine))))) = 3 \<and>
   vy (velocity (ball (paddleCollision (config bounceEngine) (updateBall (config bounceEngine)
        (updatePaddle (config bounceEngine) (controls bounceEngine) (gameState bounceEngine)))))) < 0 \<and>
   sqrt ((vx (velocity (ball (paddleCollision (config bounceEngine) (updateBall (config bounceEngine)
        (updatePaddle (config bounceEngine) (controls bounceEngine) (gameState bounceEngine)))))))\<^sup>2 +
         (vy (velocity (ball (paddleCollision (config bounceEngine) (updateBall (config bounceEngine)
        (updatePaddle (config bounceEngine) (controls bounceEngine) (gameState bounceEngine)))))))\<^sup>2) = 6"
proof -
  let ?mid = "updateBall (config bounceEngine)
        (updatePaddle (config bounceEngine) (controls bounceEngine) (gameState bounceEngine))"
  have r: "reachable bounceEngine"
    unfolding bounceEngine_def by (rule reachable_run) (rule reachable.constructed)
  have cfg: "config bounceEngine = configOf \<lparr>canvas_width = 160, canvas_height = 120\<rparr>"
    by (simp add: bounceEngine_eq configOf_def)
  have mid: "ball ?mid = \<lparr>position = \<lparr>x = 74, y = 78\<rparr>, color = ''#ff6b6b'',
                 velocity = \<lparr>vx = - 3, vy = 3\<rparr>, radius = 8\<rparr>"
    "paddle ?mid = \<lparr>position = \<lparr>x = 30, y = 85\<rparr>, color = ''#4ecdc4'',
                   width = 100, height = 15, speed = 10\<rparr>"
    by (simp_all add: bounceEngine_eq updatePaddle_def updateBall_def Let_def)
  have hit: "isColliding (ball ?mid) (paddle ?mid)"
    unfolding mid by (simp add: isColliding_def Let_def)
  have three: "vy (velocity (ball ?mid)) = 3" and w: "width (paddle ?mid) \<noteq> 0"
    unfolding mid by simp_all
  from three have down: "0 < vy (velocity (ball ?mid))" by simp
  from paddle_bounce [OF hit down w, of "\<lparr>canvas_width = 160, canvas_height = 120\<rparr>"]
  have "vy (velocity (ball (paddleCollision (config bounceEngine) ?mid))) < 0"
    and "sqrt ((vx (velocity (ball (paddleCollision (config bounceEngine) ?mid))))\<^sup>2 +
         (vy (velocity (ball (paddleCollision (config bounceEngine) ?mid))))\<^sup>2) = 6"
    unfolding cfg by blast+
  with r hit three show ?thesis by blast
qed

section \<open>The level transition\<close>

lemma blockLoop_all_destroyed:
  assumes "list_all destroyed (blocks gs)"
  shows "blockLoop i gs = gs"
  using blockLoop_cases [of i gs] assms by (auto simp: list_all_length)

lemma checkLevelComplete_cleared:
  assumes "list_all destroyed (blocks gs)"
  shows "checkLevelComplete cfg gs = nextLevel cfg gs"
proof -
  from assms have "filter (\<lambda>blk. \<not> destroyed blk) (blocks gs) = []"
    by (simp add: list_all_iff filter_empty_conv)
  then show ?thesis by (simp add: checkLevelComplete_def Let_def)
qed

text \<open>
  Whatever the ball did before, \<open>nextLevel\<close> leaves it above the paddle centre with the
  velocity (3, -3) rescaled from length \<open>sqrt 18\<close> to length \<open>sqrt 18 + 0.2\<close>: \<open>resetBall\<close>
  runs before the speed is measured.
\<close>

lemma resetBall_velocity: "velocity (ball (resetBall gs)) = \<lparr>vx = 3, vy = - 3\<rparr>"
  by (simp add: resetBall_def Let_def)

lemma sqrt_served: "sqrt ((3::real)\<^sup>2 + (- 3)\<^sup>2) = sqrt 18"
  by simp

lemma nextLevel_ball:
  "velocity (ball (nextLevel cfg gs)) =
     \<lparr>vx = 3 / sqrt 18 * (sqrt 18 + 0.2), vy = - 3 / sqrt 18 * (sqrt 18 + 0.2)\<rparr>"
  "position (ball (nextLevel cfg gs)) =
     \<lparr>x = x (position (paddle gs)) + width (paddle gs) / 2,
      y = y (position (paddle gs)) - radius (ball gs) - 5\<rparr>"
proof -
  let ?g = "resetBall (gs\<lparr>level := level gs + 1,
      blocks := generateBlocks cfg (level gs + 1)\<rparr>)"
  let ?cs = "sqrt ((vx (velocity (ball ?g)))\<^sup>2 + (vy (velocity (ball ?g)))\<^sup>2)"
  have "nextLevel cfg gs =
      ?g\<lparr>ball := (ball ?g)\<lparr>velocity :=
        \<lparr>vx = vx (velocity (ball ?g)) / ?cs * (?cs + 0.2),
         vy = vy (velocity (ball ?g)) / ?cs * (?cs + 0.2)\<rparr>\<rparr>\<rparr>"
    unfolding nextLevel_def Let_def by simp
  then have v: "velocity (ball (nextLevel cfg gs)) =
        \<lparr>vx = vx (velocity (ball ?g)) / ?cs * (?cs + 0.2),
         vy = vy (velocity (ball ?g)) / ?cs * (?cs + 0.2)\<rparr>"
    and p: "position (ball (nextLevel cfg gs)) = position (ball ?g)"
    by simp_all
  show "velocity (ball (nextLevel cfg gs)) =
     \<lparr>vx = 3 / sqrt 18 * (sqrt 18 + 0.2), vy = - 3 / sqrt 18 * (sqrt 18 + 0.2)\<rparr>"
    unfolding v resetBall_velocity velocity.select_convs sqrt_served ..
  show "position (ball (nextLevel cfg gs)) =
     \<lparr>x = x (position (paddle gs)) + width (paddle gs) / 2,
      y = y (position (paddle gs)) - radius (ball gs) - 5\<rparr>"
    unfolding p by (simp add: resetBall_def Let_def)
qed

lemma served_speed:
  "sqrt ((3 / sqrt 18 * (sqrt 18 + 0.2))\<^sup>2 + (- 3 / sqrt 18 * (sqrt 18 + 0.2))\<^sup>2)
     = sqrt 18 + (0.2 :: real)"
proof -
  have "sqrt ((3 / sqrt (3\<^sup>2 + (- 3)\<^sup>2) * (sqrt 18 + 0.2))\<^sup>2 +
              (- 3 / sqrt (3\<^sup>2 + (- 3)\<^sup>2) * (sqrt 18 + 0.2))\<^sup>2) = sqrt 18 + (0.2 :: real)"
    by (rule rescaled_speed) simp_all
  then show ?thesis unfolding sqrt_served .
qed

lemma nextLevel_speed:
  "sqrt ((vx (velocity (ball (nextLevel cfg gs))))\<^sup>2 + (vy (velocity (ball (nextLevel cfg gs))))\<^sup>2)
     = sqrt 18 + 0.2"
  unfolding nextLevel_ball(1) using served_speed by simp

text \<open>
  The parts of the level transition that hold: in a running, unpaused update in which no
  live block is left after the collision step, the level goes up by one, the grid is
  generated for the new level and the ball is put back above the paddle.
\<close>

lemma update_level_complete:
  assumes "isRunning gs" "\<not> isPaused gs"
    and "list_all destroyed (blocks (checkCollisions cfg (updateBall cfg (updatePaddle cfg ctl gs))))"
  shows "level (update cfg ctl deltaTime gs) = level gs + 1"
    and "blocks (update cfg ctl deltaTime gs) = generateBlocks cfg (level gs + 1)"
    and "velocity (ball (update cfg ctl deltaTime gs)) =
           \<lparr>vx = 3 / sqrt 18 * (sqrt 18 + 0.2), vy = - 3 / sqrt 18 * (sqrt 18 + 0.2)\<rparr>"
    and "sqrt ((vx (velocity (ball (update cfg ctl deltaTime gs))))\<^sup>2 +
               (vy (velocity (ball (update cfg ctl deltaTime gs))))\<^sup>2) = sqrt 18 + 0.2"
proof -
  let ?g = "checkGameOver (checkCollisions cfg (updateBall cfg (updatePaddle cfg ctl gs)))"
  from assms(3) have "list_all destroyed (blocks ?g)" by simp
  then have "checkLevelComplete cfg ?g = nextLevel cfg ?g"
    by (rule checkLevelComplete_cleared)
  with assms(1,2) have u: "update cfg ctl deltaTime gs = nextLevel cfg ?g"
    by (simp add: update_def)
  show "level (update cfg ctl deltaTime gs) = level gs + 1"
    and "blocks (update cfg ctl deltaTime gs) = generateBlocks cfg (level gs + 1)"
    unfolding u by simp_all
  show "velocity (ball (update cfg ctl deltaTime gs)) =
           \<lparr>vx = 3 / sqrt 18 * (sqrt 18 + 0.2), vy = - 3 / sqrt 18 * (sqrt 18 + 0.2)\<rparr>"
    unfolding u by (rule nextLevel_ball(1))
  show "sqrt ((vx (velocity (ball (update cfg ctl deltaTime gs))))\<^sup>2 +
               (vy (velocity (ball (update cfg ctl deltaTime gs))))\<^sup>2) = sqrt 18 + 0.2"
    unfolding u by (rule nextLevel_speed)
qed

lemma lastBlockState_collision:
  "list_all destroyed (blocks (checkCollisions (configOf canvas800)
      (updateBall (configOf canvas800) (updatePaddle (configOf canvas800) noInput lastBlockState))))"
  "velocity (ball (checkCollisions (configOf canvas800)
      (updateBall (configOf canvas800) (updatePaddle (configOf canvas800) noInput lastBlockState))))
     = \<lparr>vx = 3.6, vy = 4.8\<rparr>"
  by (simp_all add: lastBlockState_def noInput_def canvas800_def configOf_def initializeGame_def
      generateBlocks_grid blockRows_def blockCols_def gridRows_def upto.simps newBlock_def Let_def
      updatePaddle_def updateBall_def checkCollisions_def paddleCollision_def isColliding_def
      hitBlock_def blockLoop.simps)

lemma speed_six: "sqrt ((3.6 :: real)\<^sup>2 + 4.8\<^sup>2) = 6"
proof -
  have "(3.6 :: real)\<^sup>2 + 4.8\<^sup>2 = 6\<^sup>2" by (simp add: power2_eq_square)
  then show ?thesis by simp
qed

text \<open>
  Claim C1 at its failing input. One block is left and the ball, moving at speed 6, hits
  it on this frame; the bounce leaves the speed at 6. The frame then performs the level
  transition (level 2), but the ball's velocity afterwards is (3, -3) rescaled to length
  \<open>sqrt 18 + 0.2\<close>, which is less than 6: neither the speed before the transition plus 0.2
  nor the direction before the transition.
\<close>

theorem level_transition_resets_speed:
  "level (gameState lastBlockEngine) = 1 \<and>
   velocity (ball (gameState lastBlockEngine)) = \<lparr>vx = 3.6, vy = - 4.8\<rparr> \<and>
   sqrt (3.6\<^sup>2 + (- 4.8)\<^sup>2) = (6 :: real) \<and>
   velocity (ball (checkCollisions (config lastBlockEngine)
      (updateBall (config lastBlockEngine)
        (updatePaddle (config lastBlockEngine) (controls lastBlockEngine)
          (gameState lastBlockEngine))))) = \<lparr>vx = 3.6, vy = 4.8\<rparr> \<and>
   level (gameState (handle (Frame 16) lastBlockEngine)) = 2 \<and>
   velocity (ball (gameState (handle (Frame 16) lastBlockEngine))) =
     \<lparr>vx = 3 / sqrt 18 * (sqrt 18 + 0.2), vy = - 3 / sqrt 18 * (sqrt 18 + 0.2)\<rparr> \<and>
   sqrt ((vx (velocity (ball (gameState (handle (Frame 16) lastBlockEngine)))))\<^sup>2 +
         (vy (velocity (ball (gameState (handle (Frame 16) lastBlockEngine)))))\<^sup>2)
     = sqrt 18 + 0.2 \<and>
   sqrt 18 + 0.2 < (6 :: real)"
proof -
  have e: "config lastBlockEngine = configOf canvas800" "controls lastBlockEngine = noInput"
    "gameState lastBlockEngine = lastBlockState"
    by (simp_all add: lastBlockEngine_def newGameEngine_def noInput_def)
  have s: "isRunning lastBlockState" "\<not> isPaused lastBlockState" "level lastBlockState = 1"
    "velocity (ball lastBlockState) = \<lparr>vx = 3.6, vy = - 4.8\<rparr>"
    by (simp_all add: lastBlockState_def initializeGame_def Let_def)
  have g: "gameState (handle (Frame 16) lastBlockEngine) =
      update (configOf canvas800) noInput (16 - lastTime lastBlockEngine) lastBlockState"
    by (simp add: e)
  note u = update_level_complete [OF s(1,2) lastBlockState_collision(1)]
  from u(1) s(3) have two: "level (update (configOf canvas800) noInput deltaTime lastBlockState) = 2"
    for deltaTime by simp
  have "sqrt 18 < (5.8 :: real)" by (rule real_less_lsqrt) (simp_all add: power2_eq_square)
  then have lt: "sqrt 18 + 0.2 < (6 :: real)" by simp
  from speed_six have six: "sqrt (3.6\<^sup>2 + (- 4.8)\<^sup>2) = (6 :: real)" by simp
  show ?thesis
    unfolding g e using s(3,4) six lastBlockState_collision(2) two u(3) u(4) lt
    by blast
qed

section \<open>The snapshot\<close>

lemma readBall_append [simp]:
  "readBall (h @ [GameStateObj a b c d e f g i]) r = readBall h r"
  by (auto simp: readBall_def deref_def nth_append split: option.splits obj.splits)

lemma readPaddle_append [simp]:
  "readPaddle (h @ [GameStateObj a b c d e f g i]) r = readPaddle h r"
  by (auto simp: readPaddle_def deref_def nth_append split: option.splits obj.splits)

lemma readBlock_append [simp]:
  "readBlock (h @ [GameStateObj a b c d e f g i]) r = readBlock h r"
  by (auto simp: readBlock_def deref_def nth_append split: option.splits obj.splits)

lemma readBlocks_append [simp]:
  "readBlocks (h @ [GameStateObj a b c d e f g i]) rs = readBlocks h rs"
  by (induction rs) (simp_all split: option.splits)

lemma readArray_append [simp]:
  "readArray (h @ [GameStateObj a b c d e f g i]) r = readArray h r"
  by (auto simp: readArray_def deref_def nth_append split: option.splits obj.splits)

lemma readBall_update:
  assumes "s < length h" "h ! s = GameStateObj a b c d e f g i"
  shows "readBall (h[s := GameStateObj a' b' c' d' e' f' g' i']) r = readBall h r"
  using assms by (cases "r = s") (auto simp: readBall_def deref_def)

lemma readPaddle_update:
  assumes "s < length h" "h ! s = GameStateObj a b c d e f g i"
  shows "readPaddle (h[s := GameStateObj a' b' c' d' e' f' g' i']) r = readPaddle h r"
  using assms by (cases "r = s") (auto simp: readPaddle_def deref_def)

lemma readBlock_update:
  assumes "s < length h" "h ! s = GameStateObj a b c d e f g i"
  shows "readBlock (h[s := GameStateObj a' b' c' d' e' f' g' i']) r = readBlock h r"
  using assms by (cases "r = s") (auto simp: readBlock_def deref_def)

lemma readBlocks_update:
  assumes "s < length h" "h ! s = GameStateObj a b c d e f g i"
  shows "readBlocks (h[s := GameStateObj a' b' c' d' e' f' g' i']) rs = readBlocks h rs"
  by (induction rs) (simp_all add: readBlock_update [OF assms] split: option.splits)

lemma readArray_update:
  assumes "s < length h" "h ! s = GameStateObj a b c d e f g i"
  shows "readArray (h[s := GameStateObj a' b' c' d' e' f' g' i']) r = readArray h r"
  using assms
  by (cases "r = s")
     (auto simp: readArray_def deref_def readBlocks_update [OF assms] split: obj.splits)

lemma readGameState_update:
  assumes "s < length h" "h ! s = GameStateObj a b c d e f g i" "r \<noteq> s"
  shows "readGameState (h[s := GameStateObj a' b' c' d' e' f' g' i']) r = readGameState h r"
  using assms(3)
  by (simp add: readGameState_def deref_def readBall_update [OF assms(1,2)]
      readPaddle_update [OF assms(1,2)] readArray_update [OF assms(1,2)]
      split: obj.splits)

lemma readGameState_append:
  "r < length h \<Longrightarrow>
   readGameState (h @ [GameStateObj a b c d e f g i]) r = readGameState h r"
  by (simp add: readGameState_def deref_def nth_append split: obj.splits)

lemma mutate_own:
  assumes "ownField m" "s < length h" "h ! s = GameStateObj a b c d e f g i"
  shows "\<exists>a' b' c' d' e'. mutate s m h = h[s := GameStateObj a' b' c' d' e' f g i]"
  using assms by (cases m) (simp_all add: mutate_def mutateObj_def deref_def, blast+)

text \<open>
  Overwriting a ball object with a ball object, or an array object with an array object,
  changes nothing that is read through references to objects of another kind.
\<close>

lemma readPaddle_ball_update:
  assumes "k < length h" "h ! k = BallObj b0"
  shows "readPaddle (h[k := BallObj b1]) q = readPaddle h q"
  using assms by (cases "q = k") (auto simp: readPaddle_def deref_def)

lemma readBlock_ball_update:
  assumes "k < length h" "h ! k = BallObj b0"
  shows "readBlock (h[k := BallObj b1]) q = readBlock h q"
  using assms by (cases "q = k") (auto simp: readBlock_def deref_def)

lemma readBlocks_ball_update:
  assumes "k < length h" "h ! k = BallObj b0"
  shows "readBlocks (h[k := BallObj b1]) rs = readBlocks h rs"
  by (induction rs) (simp_all add: readBlock_ball_update [OF assms] split: option.splits)

lemma readArray_ball_update:
  assumes "k < length h" "h ! k = BallObj b0"
  shows "readArray (h[k := BallObj b1]) q = readArray h q"
  using assms
  by (cases "q = k")
     (auto simp: readArray_def deref_def readBlocks_ball_update [OF assms] split: obj.splits)

lemma readBall_array_update:
  assumes "k < length h" "h ! k = ArrayObj rs0"
  shows "readBall (h[k := ArrayObj rs1]) q = readBall h q"
  using assms by (cases "q = k") (auto simp: readBall_def deref_def)

lemma readPaddle_array_update:
  assumes "k < length h" "h ! k = ArrayObj rs0"
  shows "readPaddle (h[k := ArrayObj rs1]) q = readPaddle h q"
  using assms by (cases "q = k") (auto simp: readPaddle_def deref_def)

text \<open>What is known of a heap through which a game state is read.\<close>

lemma readGameState_SomeD:
  assumes "readGameState h r = Some gs"
  obtains br pr ar rs where
    "r < length h"
    "h ! r = GameStateObj (isRunning gs) (isPaused gs) (score gs) (lives gs) (level gs) br pr ar"
    "br < length h" "h ! br = BallObj (ball gs)"
    "readPaddle h pr = Some (paddle gs)"
    "ar < length h" "h ! ar = ArrayObj rs" "readBlocks h rs = Some (blocks gs)"
proof -
  from assms obtain a b c d e br pr ar
    where r: "r < length h" and obj: "h ! r = GameStateObj a b c d e br pr ar"
    by (auto simp: readGameState_def deref_def split: if_splits option.splits obj.splits)
  from assms r obj obtain bl pd bs
    where rb: "readBall h br = Some bl" and rp: "readPaddle h pr = Some pd"
      and ra: "readArray h ar = Some bs"
      and gs: "gs = \<lparr>isRunning = a, isPaused = b, score = c, lives = d, level = e,
                     ball = bl, paddle = pd, blocks = bs\<rparr>"
    by (auto simp: readGameState_def deref_def split: option.splits)
  from rb have b1: "br < length h" and b2: "h ! br = BallObj bl"
    by (auto simp: readBall_def deref_def split: if_splits obj.splits)
  from ra obtain rs where a1: "ar < length h" and a2: "h ! ar = ArrayObj rs"
    and a3: "readBlocks h rs = Some bs"
    by (auto simp: readArray_def deref_def split: if_splits obj.splits)
  from r obj b1 b2 rp a1 a2 a3 gs show ?thesis by (intro that [of br pr ar rs]) simp_all
qed

text \<open>
  Claim C2, amended. \<open>getGameState()\<close> returns a new object, distinct from the engine's
  game-state object, through which the same game state is read; the engine's state is
  unchanged by the call, and no assignment by the caller to a scalar field of the returned
  object (running, paused, score, lives, level) changes the engine's state. The copy is
  shallow: the new object has the same fields as the engine's object, so its \<open>ball\<close>,
  \<open>paddle\<close> and \<open>blocks\<close> fields hold the engine's own ball, paddle and block array, and
  a write through them reaches the engine's state (a new ball radius is the engine's ball
  radius; emptying the array empties the engine's block collection).
\<close>

theorem getGameState_shallow:
  assumes "readGameState h r = Some gs"
  shows "case getGameState h r of
           None \<Rightarrow> False
         | Some (h', s) \<Rightarrow>
             s \<noteq> r \<and> readGameState h' s = Some gs \<and> readGameState h' r = Some gs \<and>
             deref h' s = deref h' r \<and>
             ballRef h' s = ballRef h' r \<and> ballRef h' r \<noteq> None \<and>
             paddleRef h' s = paddleRef h' r \<and> paddleRef h' r \<noteq> None \<and>
             blocksRef h' s = blocksRef h' r \<and> blocksRef h' r \<noteq> None \<and>
             (\<forall>m. ownField m \<longrightarrow> readGameState (mutate s m h') r = Some gs) \<and>
             (\<forall>v. readGameState (mutate s (SetBallRadius v) h') r =
                    Some (gs\<lparr>ball := (ball gs)\<lparr>radius := v\<rparr>\<rparr>)) \<and>
             readGameState (mutate s TruncateBlocks h') r = Some (gs\<lparr>blocks := []\<rparr>)"
proof -
  from assms obtain br pr ar rs where
    r: "r < length h" and
    obj: "h ! r = GameStateObj (isRunning gs) (isPaused gs) (score gs) (lives gs) (level gs) br pr ar"
    and br: "br < length h" "h ! br = BallObj (ball gs)"
    and pr: "readPaddle h pr = Some (paddle gs)"
    and ar: "ar < length h" "h ! ar = ArrayObj rs" and rs: "readBlocks h rs = Some (blocks gs)"
    by (rule readGameState_SomeD)
  let ?G = "GameStateObj (isRunning gs) (isPaused gs) (score gs) (lives gs) (level gs) br pr ar"
  let ?h' = "h @ [?G]"
  let ?s = "length h"
  have get: "getGameState h r = Some (?h', ?s)"
    using r obj by (simp add: getGameState_def deref_def alloc_def)
  have fresh: "?s \<noteq> r" using r by simp
  have old: "readGameState ?h' r = Some gs"
    using assms r by (simp add: readGameState_append)
  have new: "readGameState ?h' ?s = Some gs"
    using assms r obj by (simp add: readGameState_def deref_def)
  have same: "deref ?h' ?s = deref ?h' r"
    using r obj by (simp add: deref_def nth_append)
  have refs: "ballRef ?h' ?s = ballRef ?h' r" "ballRef ?h' r \<noteq> None"
    "paddleRef ?h' ?s = paddleRef ?h' r" "paddleRef ?h' r \<noteq> None"
    "blocksRef ?h' ?s = blocksRef ?h' r" "blocksRef ?h' r \<noteq> None"
    using r obj by (simp_all add: ballRef_def paddleRef_def blocksRef_def deref_def nth_append)
  have own: "\<forall>m. ownField m \<longrightarrow> readGameState (mutate ?s m ?h') r = Some gs"
  proof (intro allI impI)
    fix m assume m: "ownField m"
    have s: "?s < length ?h'" "?h' ! ?s = ?G" by simp_all
    from mutate_own [OF m s] obtain a' b' c' d' e'
      where "mutate ?s m ?h' = ?h'[?s := GameStateObj a' b' c' d' e' br pr ar]" by blast
    then have "readGameState (mutate ?s m ?h') r = readGameState ?h' r"
      using readGameState_update [OF s, of r] r by simp
    with old show "readGameState (mutate ?s m ?h') r = Some gs" by simp
  qed
  have rneq: "r \<noteq> br" "r \<noteq> ar" using obj br(2) ar(2) by auto
  have arr: "readArray h ar = Some (blocks gs)"
    using ar rs by (simp add: readArray_def deref_def)
  have bal: "readBall h br = Some (ball gs)"
    using br by (simp add: readBall_def deref_def)
  have radius: "\<forall>v. readGameState (mutate ?s (SetBallRadius v) ?h') r =
      Some (gs\<lparr>ball := (ball gs)\<lparr>radius := v\<rparr>\<rparr>)"
  proof
    fix v
    let ?h2 = "?h'[br := BallObj ((ball gs)\<lparr>radius := v\<rparr>)]"
    have k: "br < length ?h'" "?h' ! br = BallObj (ball gs)"
      using br by (simp_all add: nth_append)
    have m: "mutate ?s (SetBallRadius v) ?h' = ?h2"
      using br by (simp add: mutate_def deref_def nth_append)
    have d: "deref ?h2 r = Some ?G"
      using r obj rneq(1) by (simp add: deref_def nth_append)
    have b: "readBall ?h2 br = Some ((ball gs)\<lparr>radius := v\<rparr>)"
      using br(1) by (simp add: readBall_def deref_def)
    have p: "readPaddle ?h2 pr = Some (paddle gs)"
      using pr by (simp add: readPaddle_ball_update [OF k])
    have a: "readArray ?h2 ar = Some (blocks gs)"
      using arr by (simp add: readArray_ball_update [OF k])
    have "readGameState ?h2 r = Some (gs\<lparr>ball := (ball gs)\<lparr>radius := v\<rparr>\<rparr>)"
      using d b p a by (simp add: readGameState_def)
    with m show "readGameState (mutate ?s (SetBallRadius v) ?h') r =
        Some (gs\<lparr>ball := (ball gs)\<lparr>radius := v\<rparr>\<rparr>)" by simp
  qed
  have trunc: "readGameState (mutate ?s TruncateBlocks ?h') r = Some (gs\<lparr>blocks := []\<rparr>)"
  proof -
    let ?h2 = "?h'[ar := ArrayObj []]"
    have k: "ar < length ?h'" "?h' ! ar = ArrayObj rs"
      using ar by (simp_all add: nth_append)
    have m: "mutate ?s TruncateBlocks ?h' = ?h2"
      using ar by (simp add: mutate_def deref_def nth_append)
    have d: "deref ?h2 r = Some ?G"
      using r obj rneq(2) by (simp add: deref_def nth_append)
    have b: "readBall ?h2 br = Some (ball gs)"
      using bal by (simp add: readBall_array_update [OF k])
    have p: "readPaddle ?h2 pr = Some (paddle gs)"
      using pr by (simp add: readPaddle_array_update [OF k])
    have a: "readArray ?h2 ar = Some []"
      using ar(1) by (simp add: readArray_def deref_def)
    have "readGameState ?h2 r = Some (gs\<lparr>blocks := []\<rparr>)"
      using d b p a by (simp add: readGameState_def)
    with m show ?thesis by simp
  qed
  from fresh old new same refs own radius trunc show ?thesis by (simp add: get)
qed

text \<open>The heap of a freshly constructed engine on the 800 by 600 canvas.\<close>

lemma newHeap_eval:
  "allocGameState (initializeGame (configOf canvas800)) [] =
     (BallObj (ball (initializeGame (configOf canvas800))) #
      PaddleObj (paddle (initializeGame (configOf canvas800))) #
      map BlockObj (concat (gridRows 3 8 0)) @
      [ArrayObj [2..<26], GameStateObj False False 0 3 1 0 1 26],
      27)"
  by (simp add: allocGameState_def alloc_def initializeGame_def configOf_def canvas800_def
      generateBlocks_grid blockRows_def blockCols_def gridRows_def upto.simps Let_def upt_rec)

lemma newHeap_eq:
  "newHeap =
     BallObj (ball (initializeGame (configOf canvas800))) #
     PaddleObj (paddle (initializeGame (configOf canvas800))) #
     map BlockObj (concat (gridRows 3 8 0)) @
     [ArrayObj [2..<26], GameStateObj False False 0 3 1 0 1 26]"
  and newRef_eq: "newRef = 27"
  by (simp_all add: newHeap_def newRef_def newHeap_eval)

lemma newHeap_length: "length newHeap = 28"
  by (simp add: newHeap_eq gridRows_def upto.simps)

lemma newHeap_top: "newHeap ! 27 = GameStateObj False False 0 3 1 0 1 26"
  by (simp add: newHeap_eq gridRows_def upto.simps)

lemma newSnapshot_eq:
  "getGameState newHeap newRef = Some newSnapshot"
  "newSnapshot = (newHeap @ [GameStateObj False False 0 3 1 0 1 26], 28)"
  by (simp_all add: newSnapshot_def getGameState_def deref_def alloc_def newRef_eq
      newHeap_length newHeap_top)

lemma newHeap_read: "readGameState newHeap newRef = Some (initializeGame (configOf canvas800))"
  by (simp add: readGameState_def readBall_def readPaddle_def readArray_def readBlock_def
      deref_def newRef_eq newHeap_eq gridRows_def upto.simps upt_rec
      initializeGame_def configOf_def canvas800_def
      generateBlocks_grid blockRows_def blockCols_def Let_def)

text \<open>
  Claim C2 as stated fails: on a fresh engine the caller sets \<open>blocks[0].destroyed = true\<close>
  on the snapshot, and the engine's own game state then has its first block destroyed.
\<close>

theorem snapshot_aliases_blocks:
  "getGameState newHeap newRef = Some newSnapshot \<and>
   readGameState (fst newSnapshot) newRef = Some (initializeGame (configOf canvas800)) \<and>
   \<not> destroyed (blocks (initializeGame (configOf canvas800)) ! 0) \<and>
   readGameState (mutate (snd newSnapshot) (SetBlockDestroyed 0 True) (fst newSnapshot)) newRef =
     Some ((initializeGame (configOf canvas800))
       \<lparr>blocks := (blocks (initializeGame (configOf canvas800)))
          [0 := (blocks (initializeGame (configOf canvas800)) ! 0)\<lparr>destroyed := True\<rparr>]\<rparr>)"
proof -
  have before: "readGameState (fst newSnapshot) newRef = Some (initializeGame (configOf canvas800))"
    using newHeap_read
    by (simp add: newSnapshot_eq(2) readGameState_append newRef_eq newHeap_length)
  have live: "\<not> destroyed (blocks (initializeGame (configOf canvas800)) ! 0)"
    by (simp add: initializeGame_def Let_def generateBlocks_grid blockRows_def blockCols_def
        configOf_def canvas800_def gridRows_def upto.simps newBlock_def)
  have after: "readGameState (mutate (snd newSnapshot) (SetBlockDestroyed 0 True) (fst newSnapshot))
      newRef =
     Some ((initializeGame (configOf canvas800))
       \<lparr>blocks := (blocks (initializeGame (configOf canvas800)))
          [0 := (blocks (initializeGame (configOf canvas800)) ! 0)\<lparr>destroyed := True\<rparr>]\<rparr>)"
    by (simp add: newSnapshot_eq(2) mutate_def readGameState_def readBall_def readPaddle_def
        readArray_def readBlock_def deref_def newRef_eq newHeap_eq gridRows_def upto.simps upt_rec
        initializeGame_def configOf_def canvas800_def
        generateBlocks_grid blockRows_def blockCols_def Let_def)
  from newSnapshot_eq(1) before live after show ?thesis by blast
qed

theorem getGameState_shallow_witness:
  "readGameState newHeap newRef = Some (initializeGame (configOf canvas800)) \<and>
   snd newSnapshot \<noteq> newRef \<and>
   readGameState (fst newSnapshot) (snd newSnapshot) = Some (initializeGame (configOf canvas800)) \<and>
   ballRef (fst newSnapshot) (snd newSnapshot) = ballRef (fst newSnapshot) newRef \<and>
   paddleRef (fst newSnapshot) (snd newSnapshot) = paddleRef (fst newSnapshot) newRef \<and>
   blocksRef (fst newSnapshot) (snd newSnapshot) = blocksRef (fst newSnapshot) newRef \<and>
   readGameState (mutate (snd newSnapshot) (SetScore 999) (fst newSnapshot)) newRef =
     Some (initializeGame (configOf canvas800)) \<and>
   readGameState (mutate (snd newSnapshot) (SetBallRadius 20) (fst newSnapshot)) newRef =
     Some ((initializeGame (configOf canvas800))
       \<lparr>ball := (ball (initializeGame (configOf canvas800)))\<lparr>radius := 20\<rparr>\<rparr>) \<and>
   readGameState (mutate (snd newSnapshot) TruncateBlocks (fst newSnapshot)) newRef =
     Some ((initializeGame (configOf canvas800))\<lparr>blocks := []\<rparr>)"
proof -
  let ?gs = "initializeGame (configOf canvas800)"
  let ?h = "fst newSnapshot" and ?s = "snd newSnapshot"
  from getGameState_shallow [OF newHeap_read]
  have T: "?s \<noteq> newRef \<and> readGameState ?h ?s = Some ?gs \<and> readGameState ?h newRef = Some ?gs \<and>
       deref ?h ?s = deref ?h newRef \<and>
       ballRef ?h ?s = ballRef ?h newRef \<and> ballRef ?h newRef \<noteq> None \<and>
       paddleRef ?h ?s = paddleRef ?h newRef \<and> paddleRef ?h newRef \<noteq> None \<and>
       blocksRef ?h ?s = blocksRef ?h newRef \<and> blocksRef ?h newRef \<noteq> None \<and>
       (\<forall>m. ownField m \<longrightarrow> readGameState (mutate ?s m ?h) newRef = Some ?gs) \<and>
       (\<forall>v. readGameState (mutate ?s (SetBallRadius v) ?h) newRef =
              Some (?gs\<lparr>ball := (ball ?gs)\<lparr>radius := v\<rparr>\<rparr>)) \<and>
       readGameState (mutate ?s TruncateBlocks ?h) newRef = Some (?gs\<lparr>blocks := []\<rparr>)"
    unfolding newSnapshot_eq(1) option.case case_prod_beta .
  have own: "ownField (SetScore 999)" by simp
  from T own have "readGameState (mutate ?s (SetScore 999) ?h) newRef = Some ?gs" by blast
  moreover from T have "readGameState (mutate ?s (SetBallRadius 20) ?h) newRef =
      Some (?gs\<lparr>ball := (ball ?gs)\<lparr>radius := 20\<rparr>\<rparr>)" by blast
  ultimately show ?thesis using T newHeap_read by blast
qed

end
